theory Spec2Isabelle
  imports Main "HOL-Library.Word"
begin

unbundle bit_operations_syntax

text \<open>
  A shallow embedding of the simple virtual machine (svm.c), its assembler (sasm.c) and
  their shared header (svm.h). Machine integers are words of their width, \<open>exit(1)\<close>
  is an error value, and the interpreter's loop takes fuel.
\<close>

section \<open>Shared header: svm.h\<close>

type_synonym byte = "8 word"
type_synonym word16 = "16 word"

definition MEMORY_SIZE :: nat where "MEMORY_SIZE = 32768"

definition HALT :: byte where "HALT = 0x31"
definition LOAD :: byte where "LOAD = 0x60"
definition LOADI :: byte where "LOADI = 0x61"
definition STORE :: byte where "STORE = 0x62"
definition STOREI :: byte where "STOREI = 0x63"
definition JMP :: byte where "JMP = 0x64"
definition JMPZ :: byte where "JMPZ = 0x65"
definition JMPN :: byte where "JMPN = 0x66"
definition JMPO :: byte where "JMPO = 0x67"
definition ADD :: byte where "ADD = 0x68"
definition ADDR :: byte where "ADDR = 0x69"
definition SUB :: byte where "SUB = 0x6a"
definition SUBR :: byte where "SUBR = 0x6b"
definition OUT :: byte where "OUT = 0x6c"
definition OUTC :: byte where "OUTC = 0x6d"
definition OUTR :: byte where "OUTR = 0x6e"
definition OUTRC :: byte where "OUTRC = 0x6f"
definition OUTI :: byte where "OUTI = 0x70"
definition OUTIC :: byte where "OUTIC = 0x71"

definition A1 :: byte where "A1 = 3"
definition A2 :: byte where "A2 = 2"
definition R1 :: byte where "R1 = 1"
definition R2 :: byte where "R2 = 0"

section \<open>The virtual machine: svm.c\<close>

subsection \<open>State\<close>

text \<open>
  The struct \<open>CPU\<close>: four 16-bit registers, the program counter and three flags held
  in \<open>uint8_t\<close> fields. The flag fields carry the prefix \<open>flag_\<close> because \<open>O\<close> is
  taken by relation composition.
\<close>

record CPU =
  REG1 :: word16
  REG2 :: word16
  ADDR1 :: word16
  ADDR2 :: word16
  PC :: word16
  flag_Z :: byte
  flag_N :: byte
  flag_O :: byte

text \<open>
  What \<open>printf\<close> writes to the standard output: \<open>%d\<close> of an \<open>int16_t\<close>, or \<open>%c\<close> of
  a byte.
\<close>

datatype out_item = Print_Int int | Print_Char byte

text \<open>
  The globals \<open>cpu\<close> and \<open>memory\<close>, and the output written so far. The array
  \<open>memory\<close> has \<open>MEMORY_SIZE\<close> cells: the model's store is indexed by every natural
  number, and an access is inside the array exactly when its index is below
  \<open>MEMORY_SIZE\<close>.
\<close>

record VM =
  cpu :: CPU
  memory :: "nat \<Rightarrow> byte"
  stdout :: "out_item list"

text \<open>
  The diagnostics the interpreter prints before \<open>exit(1)\<close>, one constructor for each
  \<open>fprintf(stderr, ...)\<close> of svm.c.
\<close>

datatype diagnostic =
    Memory_Out_Of_Bounds word16
  | Invalid_Address_Register_LOADI byte
  | Invalid_Destination_Register_LOADI byte
  | Invalid_Address_Register_STOREI byte
  | Invalid_Source_Register_STOREI byte
  | Jumped_To_Invalid_Address word16
  | Jump_To_Invalid_Memory word16
  | Unknown_Opcode byte word16

text \<open>
  A step ends early in one of two ways: \<open>Exit d\<close> is \<open>exit(1)\<close> after the diagnostic
  \<open>d\<close>; \<open>Out_Of_Array i\<close> is an access \<open>memory[i]\<close> with \<open>i \<ge> MEMORY_SIZE\<close> that the
  code performs with no check and no diagnostic (outside the array, so C gives it no
  meaning).
\<close>

datatype fault = Exit diagnostic | Out_Of_Array nat

datatype status = Running | Halted

subsection \<open>Memory access\<close>

text \<open>An unchecked read \<open>memory[i]\<close>.\<close>

definition read_memory :: "(nat \<Rightarrow> byte) \<Rightarrow> nat \<Rightarrow> fault + byte" where
  "read_memory mem i = (if i < MEMORY_SIZE then Inr (mem i) else Inl (Out_Of_Array i))"

text \<open>An unchecked write \<open>memory[i] = v\<close>.\<close>

definition write_memory :: "(nat \<Rightarrow> byte) \<Rightarrow> nat \<Rightarrow> byte \<Rightarrow> fault + (nat \<Rightarrow> byte)" where
  "write_memory mem i v = (if i < MEMORY_SIZE then Inr (mem(i := v)) else Inl (Out_Of_Array i))"

text \<open>
  \<open>fetchImmediate\<close>: the guard \<open>address + 1 >= MEMORY_SIZE\<close> is evaluated in \<open>int\<close>,
  so \<open>address + 1\<close> does not wrap.
\<close>

definition fetchImmediate :: "(nat \<Rightarrow> byte) \<Rightarrow> word16 \<Rightarrow> fault + word16" where
  "fetchImmediate mem address =
     (if unat address + 1 \<ge> MEMORY_SIZE then Inl (Exit (Memory_Out_Of_Bounds address))
      else Inr (push_bit 8 (ucast (mem (unat address))) OR ucast (mem (unat address + 1))))"

text \<open>\<open>memory[cpu.PC++]\<close>: an unchecked read at the program counter, which then advances.\<close>

definition fetch_byte :: "VM \<Rightarrow> fault + (byte \<times> VM)" where
  "fetch_byte s =
     (case read_memory (memory s) (unat (PC (cpu s))) of
        Inl f \<Rightarrow> Inl f
      | Inr b \<Rightarrow> Inr (b, s\<lparr>cpu := (cpu s)\<lparr>PC := PC (cpu s) + 1\<rparr>\<rparr>))"

text \<open>
  The two stores of STORE and STOREI: \<open>memory[a] = (value >> 8) & 0xFF\<close> and
  \<open>memory[a + 1] = value & 0xFF\<close>, with \<open>a + 1\<close> computed in \<open>int\<close>.
\<close>

definition store16 :: "(nat \<Rightarrow> byte) \<Rightarrow> word16 \<Rightarrow> word16 \<Rightarrow> fault + (nat \<Rightarrow> byte)" where
  "store16 mem a v =
     (case write_memory mem (unat a) (ucast (drop_bit 8 v AND 0xFF)) of
        Inl f \<Rightarrow> Inl f
      | Inr mem1 \<Rightarrow> write_memory mem1 (unat a + 1) (ucast (v AND 0xFF)))"

subsection \<open>Flags\<close>

definition set_flags :: "word16 \<Rightarrow> word16 \<Rightarrow> word16 \<Rightarrow> char \<Rightarrow> CPU \<Rightarrow> CPU" where
  "set_flags operand1 operand2 result operation c =
     c\<lparr>flag_Z := of_bool (result = 0),
       flag_N := of_bool (result AND 0x8000 \<noteq> 0),
       flag_O :=
         (if operation = CHR ''+'' then
            (if operand1 AND 0x8000 = operand2 AND 0x8000
                \<and> result AND 0x8000 \<noteq> operand1 AND 0x8000 then 1 else 0)
          else if operation = CHR ''-'' then
            (if operand1 AND 0x8000 \<noteq> operand2 AND 0x8000
                \<and> result AND 0x8000 \<noteq> operand1 AND 0x8000 then 1 else 0)
          else 0)\<rparr>"

definition set_flags_for_load :: "word16 \<Rightarrow> CPU \<Rightarrow> CPU" where
  "set_flags_for_load v c =
     c\<lparr>flag_Z := of_bool (v = 0), flag_N := of_bool (v AND 0x8000 \<noteq> 0)\<rparr>"

subsection \<open>Instruction handlers\<close>

text \<open>
  Each handler takes the machine after the opcode byte has been fetched (the program
  counter is past the opcode) and returns the machine at the \<open>break\<close> of its \<open>case\<close>.
\<close>

definition exec_LOAD :: "VM \<Rightarrow> fault + VM" where
  "exec_LOAD s =
     (case fetch_byte s of
        Inl f \<Rightarrow> Inl f
      | Inr (reg, s1) \<Rightarrow>
          (case fetchImmediate (memory s1) (PC (cpu s1)) of
             Inl f \<Rightarrow> Inl f
           | Inr immediate \<Rightarrow>
               (let c = (cpu s1)\<lparr>PC := PC (cpu s1) + 2\<rparr> in
                Inr (s1\<lparr>cpu :=
                  (if reg = R1 then set_flags_for_load immediate (c\<lparr>REG1 := immediate\<rparr>)
                   else if reg = R2 then set_flags_for_load immediate (c\<lparr>REG2 := immediate\<rparr>)
                   else if reg = A1 then c\<lparr>ADDR1 := immediate\<rparr>
                   else if reg = A2 then c\<lparr>ADDR2 := immediate\<rparr>
                   else c)\<rparr>))))"

text \<open>
  The two fields of the packed register byte of LOADI, STOREI, ADDR and SUBR, as every
  one of the four handlers extracts them: \<open>reg2 = (reg_byte >> 6) & 0x03\<close> (bits 7-6)
  and \<open>reg1 = reg_byte & 0x03\<close> (bits 1-0).
\<close>

definition packed_reg2 :: "byte \<Rightarrow> byte" where
  "packed_reg2 reg_byte = drop_bit 6 reg_byte AND 0x03"

definition packed_reg1 :: "byte \<Rightarrow> byte" where
  "packed_reg1 reg_byte = reg_byte AND 0x03"

text \<open>
  The address selection of LOADI and STOREI: \<open>A1\<close>, \<open>A2\<close>, \<open>R1\<close>, \<open>R2\<close>, and \<open>None\<close>
  for the final \<open>else\<close>, where each handler prints its own diagnostic.
\<close>

definition address_operand :: "byte \<Rightarrow> CPU \<Rightarrow> word16 option" where
  "address_operand reg2 c =
     (if reg2 = A1 then Some (ADDR1 c)
      else if reg2 = A2 then Some (ADDR2 c)
      else if reg2 = R1 then Some (REG1 c)
      else if reg2 = R2 then Some (REG2 c)
      else None)"

text \<open>
  LOADI after the packed byte has been fetched and its two fields extracted: the body
  of the \<open>case\<close> as a function of \<open>reg1\<close> and \<open>reg2\<close>.
\<close>

definition exec_LOADI_registers :: "byte \<Rightarrow> byte \<Rightarrow> VM \<Rightarrow> fault + VM" where
  "exec_LOADI_registers reg1 reg2 s1 =
     (let c = cpu s1
      in case address_operand reg2 c of
           None \<Rightarrow> Inl (Exit (Invalid_Address_Register_LOADI reg2))
         | Some address \<Rightarrow>
             (case fetchImmediate (memory s1) address of
                Inl f \<Rightarrow> Inl f
              | Inr v \<Rightarrow>
                  if reg1 = R1 then Inr (s1\<lparr>cpu := set_flags_for_load v (c\<lparr>REG1 := v\<rparr>)\<rparr>)
                  else if reg1 = R2 then Inr (s1\<lparr>cpu := set_flags_for_load v (c\<lparr>REG2 := v\<rparr>)\<rparr>)
                  else if reg1 = A1 then Inr (s1\<lparr>cpu := c\<lparr>ADDR1 := v\<rparr>\<rparr>)
                  else if reg1 = A2 then Inr (s1\<lparr>cpu := c\<lparr>ADDR2 := v\<rparr>\<rparr>)
                  else Inl (Exit (Invalid_Destination_Register_LOADI reg1))))"

definition exec_LOADI :: "VM \<Rightarrow> fault + VM" where
  "exec_LOADI s =
     (case fetch_byte s of
        Inl f \<Rightarrow> Inl f
      | Inr (reg_byte, s1) \<Rightarrow>
          exec_LOADI_registers (packed_reg1 reg_byte) (packed_reg2 reg_byte) s1)"

definition exec_STORE :: "VM \<Rightarrow> fault + VM" where
  "exec_STORE s =
     (case fetch_byte s of
        Inl f \<Rightarrow> Inl f
      | Inr (reg, s1) \<Rightarrow>
          (case fetchImmediate (memory s1) (PC (cpu s1)) of
             Inl f \<Rightarrow> Inl f
           | Inr immediate \<Rightarrow>
               (let c = (cpu s1)\<lparr>PC := PC (cpu s1) + 2\<rparr>;
                    v = (if reg = R1 then REG1 c else REG2 c)
                in case store16 (memory s1) immediate v of
                     Inl f \<Rightarrow> Inl f
                   | Inr mem' \<Rightarrow> Inr (s1\<lparr>cpu := c, memory := mem'\<rparr>))))"

text \<open>STOREI after the packed byte has been fetched and its two fields extracted.\<close>

definition exec_STOREI_registers :: "byte \<Rightarrow> byte \<Rightarrow> VM \<Rightarrow> fault + VM" where
  "exec_STOREI_registers reg1 reg2 s1 =
     (let c = cpu s1
      in case address_operand reg2 c of
           None \<Rightarrow> Inl (Exit (Invalid_Address_Register_STOREI reg2))
         | Some address \<Rightarrow>
             (case (if reg1 = R1 then Some (REG1 c)
                    else if reg1 = R2 then Some (REG2 c)
                    else if reg1 = A1 then Some (ADDR1 c)
                    else if reg1 = A2 then Some (ADDR2 c)
                    else None) of
                None \<Rightarrow> Inl (Exit (Invalid_Source_Register_STOREI reg1))
              | Some v \<Rightarrow>
                  (case store16 (memory s1) address v of
                     Inl f \<Rightarrow> Inl f
                   | Inr mem' \<Rightarrow> Inr (s1\<lparr>memory := mem'\<rparr>))))"

definition exec_STOREI :: "VM \<Rightarrow> fault + VM" where
  "exec_STOREI s =
     (case fetch_byte s of
        Inl f \<Rightarrow> Inl f
      | Inr (reg_byte, s1) \<Rightarrow>
          exec_STOREI_registers (packed_reg1 reg_byte) (packed_reg2 reg_byte) s1)"

text \<open>
  The selection \<open>(reg == R1) ? cpu.REG1 : cpu.REG2\<close> of STORE, ADD, SUB, ADDR and SUBR:
  every code other than \<open>R1\<close> selects \<open>REG2\<close>.
\<close>

definition data_register :: "byte \<Rightarrow> CPU \<Rightarrow> word16" where
  "data_register reg c = (if reg = R1 then REG1 c else REG2 c)"

text \<open>
  ADD and SUB share their shape: \<open>operation\<close> is \<open>'+'\<close> or \<open>'-'\<close>. A register byte
  that is neither \<open>R1\<close> nor \<open>R2\<close> matches no branch of the \<open>if\<close>/\<open>else if\<close>.
\<close>

definition arith :: "char \<Rightarrow> word16 \<Rightarrow> word16 \<Rightarrow> word16" where
  "arith operation a b = (if operation = CHR ''+'' then a + b else a - b)"

definition exec_immediate_arith :: "char \<Rightarrow> VM \<Rightarrow> fault + VM" where
  "exec_immediate_arith operation s =
     (case fetch_byte s of
        Inl f \<Rightarrow> Inl f
      | Inr (reg, s1) \<Rightarrow>
          (case fetchImmediate (memory s1) (PC (cpu s1)) of
             Inl f \<Rightarrow> Inl f
           | Inr immediate \<Rightarrow>
               (let c = (cpu s1)\<lparr>PC := PC (cpu s1) + 2\<rparr>;
                    old_value = data_register reg c
                in Inr (s1\<lparr>cpu :=
                     (if reg = R1 then
                        set_flags old_value immediate (arith operation (REG1 c) immediate) operation
                          (c\<lparr>REG1 := arith operation (REG1 c) immediate\<rparr>)
                      else if reg = R2 then
                        set_flags old_value immediate (arith operation (REG2 c) immediate) operation
                          (c\<lparr>REG2 := arith operation (REG2 c) immediate\<rparr>)
                      else c)\<rparr>))))"

definition exec_ADD :: "VM \<Rightarrow> fault + VM" where
  "exec_ADD = exec_immediate_arith (CHR ''+'')"

definition exec_SUB :: "VM \<Rightarrow> fault + VM" where
  "exec_SUB = exec_immediate_arith (CHR ''-'')"

text \<open>
  ADDR and SUBR: \<open>dest_reg\<close> points to \<open>REG1\<close> when \<open>reg1 == R1\<close> and to \<open>REG2\<close>
  otherwise; \<open>src_value\<close> is read before the destination is written.
\<close>

definition exec_register_arith_registers :: "char \<Rightarrow> byte \<Rightarrow> byte \<Rightarrow> VM \<Rightarrow> fault + VM" where
  "exec_register_arith_registers operation reg1 reg2 s1 =
     (let c = cpu s1;
          src_value = data_register reg2 c;
          old_value = data_register reg1 c;
          result = arith operation old_value src_value
      in Inr (s1\<lparr>cpu := set_flags old_value src_value result operation
                 (if reg1 = R1 then c\<lparr>REG1 := result\<rparr> else c\<lparr>REG2 := result\<rparr>)\<rparr>))"

definition exec_register_arith :: "char \<Rightarrow> VM \<Rightarrow> fault + VM" where
  "exec_register_arith operation s =
     (case fetch_byte s of
        Inl f \<Rightarrow> Inl f
      | Inr (reg_byte, s1) \<Rightarrow>
          exec_register_arith_registers operation (packed_reg1 reg_byte) (packed_reg2 reg_byte) s1)"

definition exec_ADDR :: "VM \<Rightarrow> fault + VM" where
  "exec_ADDR = exec_register_arith (CHR ''+'')"

definition exec_SUBR :: "VM \<Rightarrow> fault + VM" where
  "exec_SUBR = exec_register_arith (CHR ''-'')"

definition exec_JMP :: "byte \<Rightarrow> VM \<Rightarrow> fault + VM" where
  "exec_JMP opcode s =
     (case fetch_byte s of
        Inl f \<Rightarrow> Inl f
      | Inr (unused, s1) \<Rightarrow>
          if unat (PC (cpu s1)) \<ge> MEMORY_SIZE
          then Inl (Exit (Jumped_To_Invalid_Address (PC (cpu s1))))
          else
            (case fetchImmediate (memory s1) (PC (cpu s1)) of
               Inl f \<Rightarrow> Inl f
             | Inr immediate \<Rightarrow>
                 (let c = (cpu s1)\<lparr>PC := PC (cpu s1) + 2\<rparr>;
                      jump = (if opcode = JMP then True
                              else if opcode = JMPZ \<and> flag_Z c \<noteq> 0 then True
                              else if opcode = JMPN \<and> flag_N c \<noteq> 0 then True
                              else if opcode = JMPO \<and> flag_O c \<noteq> 0 then True
                              else False)
                  in if jump then
                       (if unat immediate < MEMORY_SIZE then Inr (s1\<lparr>cpu := c\<lparr>PC := immediate\<rparr>\<rparr>)
                        else Inl (Exit (Jump_To_Invalid_Memory immediate)))
                     else Inr (s1\<lparr>cpu := c\<rparr>))))"

text \<open>OUT and OUTC skip the unused byte with \<open>cpu.PC++\<close>, without reading it.\<close>

definition exec_OUT :: "VM \<Rightarrow> fault + VM" where
  "exec_OUT s =
     (let pc = PC (cpu s) + 1 in
      case fetchImmediate (memory s) pc of
        Inl f \<Rightarrow> Inl f
      | Inr immediate \<Rightarrow>
          Inr (s\<lparr>cpu := (cpu s)\<lparr>PC := pc + 2\<rparr>,
                 stdout := stdout s @ [Print_Int (sint immediate)]\<rparr>))"

definition exec_OUTC :: "VM \<Rightarrow> fault + VM" where
  "exec_OUTC s =
     (let pc = PC (cpu s) + 1 in
      case fetchImmediate (memory s) pc of
        Inl f \<Rightarrow> Inl f
      | Inr immediate \<Rightarrow>
          Inr (s\<lparr>cpu := (cpu s)\<lparr>PC := pc + 2\<rparr>,
                 stdout := stdout s @ [Print_Char (ucast (immediate AND 0xFF))]\<rparr>))"

definition exec_OUTR :: "VM \<Rightarrow> fault + VM" where
  "exec_OUTR s =
     (case fetch_byte s of
        Inl f \<Rightarrow> Inl f
      | Inr (reg, s1) \<Rightarrow>
          if reg = R1 then Inr (s1\<lparr>stdout := stdout s1 @ [Print_Int (sint (REG1 (cpu s1)))]\<rparr>)
          else if reg = R2 then Inr (s1\<lparr>stdout := stdout s1 @ [Print_Int (sint (REG2 (cpu s1)))]\<rparr>)
          else Inr s1)"

definition exec_OUTRC :: "VM \<Rightarrow> fault + VM" where
  "exec_OUTRC s =
     (case fetch_byte s of
        Inl f \<Rightarrow> Inl f
      | Inr (reg, s1) \<Rightarrow>
          if reg = R1
          then Inr (s1\<lparr>stdout := stdout s1 @ [Print_Char (ucast (REG1 (cpu s1) AND 0xFF))]\<rparr>)
          else if reg = R2
          then Inr (s1\<lparr>stdout := stdout s1 @ [Print_Char (ucast (REG2 (cpu s1) AND 0xFF))]\<rparr>)
          else Inr s1)"

definition exec_OUTI :: "VM \<Rightarrow> fault + VM" where
  "exec_OUTI s =
     (case fetch_byte s of
        Inl f \<Rightarrow> Inl f
      | Inr (reg, s1) \<Rightarrow>
          (let address = (if reg = A1 then ADDR1 (cpu s1) else ADDR2 (cpu s1)) in
           case fetchImmediate (memory s1) address of
             Inl f \<Rightarrow> Inl f
           | Inr v \<Rightarrow> Inr (s1\<lparr>stdout := stdout s1 @ [Print_Int (sint v)]\<rparr>)))"

definition exec_OUTIC :: "VM \<Rightarrow> fault + VM" where
  "exec_OUTIC s =
     (case fetch_byte s of
        Inl f \<Rightarrow> Inl f
      | Inr (reg, s1) \<Rightarrow>
          (let address = (if reg = A1 then ADDR1 (cpu s1) else ADDR2 (cpu s1)) in
           case read_memory (memory s1) (unat address) of
             Inl f \<Rightarrow> Inl f
           | Inr v \<Rightarrow> Inr (s1\<lparr>stdout := stdout s1 @ [Print_Char v]\<rparr>)))"

subsection \<open>The execution loop\<close>

definition running :: "fault + VM \<Rightarrow> fault + (status \<times> VM)" where
  "running r = (case r of Inl f \<Rightarrow> Inl f | Inr s \<Rightarrow> Inr (Running, s))"

text \<open>One iteration of the \<open>while (1)\<close> of \<open>processor_cycle\<close>.\<close>

definition processor_step :: "VM \<Rightarrow> fault + (status \<times> VM)" where
  "processor_step s =
     (let start_PC = PC (cpu s) in
      case fetch_byte s of
        Inl f \<Rightarrow> Inl f
      | Inr (opcode, s1) \<Rightarrow>
          if opcode = HALT then Inr (Halted, s1)
          else if opcode = LOAD then running (exec_LOAD s1)
          else if opcode = LOADI then running (exec_LOADI s1)
          else if opcode = STORE then running (exec_STORE s1)
          else if opcode = STOREI then running (exec_STOREI s1)
          else if opcode = ADD then running (exec_ADD s1)
          else if opcode = ADDR then running (exec_ADDR s1)
          else if opcode = SUB then running (exec_SUB s1)
          else if opcode = SUBR then running (exec_SUBR s1)
          else if opcode = JMP \<or> opcode = JMPZ \<or> opcode = JMPN \<or> opcode = JMPO
          then running (exec_JMP opcode s1)
          else if opcode = OUT then running (exec_OUT s1)
          else if opcode = OUTC then running (exec_OUTC s1)
          else if opcode = OUTR then running (exec_OUTR s1)
          else if opcode = OUTRC then running (exec_OUTRC s1)
          else if opcode = OUTI then running (exec_OUTI s1)
          else if opcode = OUTIC then running (exec_OUTIC s1)
          else Inl (Exit (Unknown_Opcode opcode start_PC)))"

text \<open>
  The loop itself may run forever, so it takes fuel: \<open>None\<close> when the fuel runs out
  before HALT or a fault, otherwise the fault or the machine at HALT.
\<close>

fun processor_cycle :: "nat \<Rightarrow> VM \<Rightarrow> (fault + VM) option" where
  "processor_cycle 0 s = None"
| "processor_cycle (Suc n) s =
     (case processor_step s of
        Inl f \<Rightarrow> Some (Inl f)
      | Inr (Halted, s') \<Rightarrow> Some (Inr s')
      | Inr (Running, s') \<Rightarrow> processor_cycle n s')"

subsection \<open>Loading and start-up\<close>

text \<open>
  \<open>load_program\<close>: the loop copies one byte of the input for each iteration while
  \<open>address < MEMORY_SIZE\<close>; it returns nothing and raises nothing.
\<close>

fun load_loop :: "word16 \<Rightarrow> byte list \<Rightarrow> (nat \<Rightarrow> byte) \<Rightarrow> (nat \<Rightarrow> byte)" where
  "load_loop address [] mem = mem"
| "load_loop address (b # rest) mem =
     (if unat address < MEMORY_SIZE then load_loop (address + 1) rest (mem(unat address := b))
      else mem)"

definition load_program :: "byte list \<Rightarrow> (nat \<Rightarrow> byte) \<Rightarrow> (nat \<Rightarrow> byte)" where
  "load_program input mem = load_loop 0 input mem"

definition initialize_cpu :: CPU where
  "initialize_cpu =
     \<lparr>REG1 = 0, REG2 = 0, ADDR1 = 0, ADDR2 = 0, PC = 0, flag_Z = 0, flag_N = 0, flag_O = 0\<rparr>"

text \<open>\<open>main\<close> of svm.c: zeroed memory, initial CPU, the program loaded, then the loop.\<close>

definition boot :: "byte list \<Rightarrow> VM" where
  "boot input = \<lparr>cpu = initialize_cpu, memory = load_program input (\<lambda>_. 0), stdout = []\<rparr>"

definition svm_main :: "nat \<Rightarrow> byte list \<Rightarrow> (fault + VM) option" where
  "svm_main fuel input = processor_cycle fuel (boot input)"

section \<open>The assembler: sasm.c\<close>

subsection \<open>Errors and the symbol table\<close>

text \<open>
  One constructor for each \<open>fprintf(stderr, ...); exit(1)\<close> of sasm.c, with the text
  the message prints. \<open>Indeterminate_Instruction\<close> stands for the one place where the
  code compares a buffer that a failed \<open>sscanf\<close> would have left unwritten; it is shown
  below to be unreachable. \<open>Lines_Out_Of_Array\<close> stands for the reading loop of \<open>main\<close>
  storing a row beyond the 1024 rows of \<open>lines\<close>, which it does with no check and no
  diagnostic (outside the array, so C gives it no meaning).
\<close>

datatype error =
    Symbol_Table_Overflow
  | Unknown_Instruction_First_Pass string
  | Invalid_Register string
  | Invalid_Register_In_Instruction string string string
  | Unknown_Two_Operand_Instruction string
  | Undefined_Label string
  | Unknown_One_Operand_Instruction string
  | Unknown_Instruction string
  | Invalid_Instruction_Format string
  | Indeterminate_Instruction
  | Lines_Out_Of_Array

text \<open>The struct \<open>Label\<close>: a name and its address. The table keeps the order of insertion.\<close>

type_synonym Label = "string \<times> word16"

definition MAX_LABELS :: nat where "MAX_LABELS = 256"

definition get_register_code :: "string \<Rightarrow> byte" where
  "get_register_code reg =
     (if reg = ''R1'' then 1
      else if reg = ''R2'' then 0
      else if reg = ''A1'' then 3
      else if reg = ''A2'' then 2
      else 0xFF)"

text \<open>\<open>write16\<close>: the two \<open>putchar\<close> calls, high byte first.\<close>

definition write16 :: "word16 \<Rightarrow> byte list" where
  "write16 v = [ucast (drop_bit 8 v AND 0xFF), ucast (v AND 0xFF)]"

definition add_label :: "Label list \<Rightarrow> string \<Rightarrow> word16 \<Rightarrow> error + Label list" where
  "add_label symbol_table name a =
     (if length symbol_table \<ge> MAX_LABELS then Inl Symbol_Table_Overflow
      else Inr (symbol_table @ [(name, a)]))"

text \<open>\<open>find_label\<close> scans from index 0 and returns at the first entry with the name.\<close>

fun find_label :: "Label list \<Rightarrow> string \<Rightarrow> word16 option" where
  "find_label [] name = None"
| "find_label ((n, a) # rest) name = (if n = name then Some a else find_label rest name)"

subsection \<open>Preprocessing\<close>

text \<open>\<open>isspace\<close> in the C locale: space, \<open>\t\<close>, \<open>\n\<close>, \<open>\v\<close>, \<open>\f\<close>, \<open>\r\<close>.\<close>

definition isspace :: "char \<Rightarrow> bool" where
  "isspace c = (c \<in> set [CHR '' '', CHR 0x09, CHR 0x0A, CHR 0x0B, CHR 0x0C, CHR 0x0D])"

definition strip_comments :: "string \<Rightarrow> string" where
  "strip_comments line = takeWhile (\<lambda>c. c \<noteq> CHR ''#'') line"

text \<open>
  \<open>trim_whitespace\<close>: the first loop drops leading whitespace; the second clears
  trailing whitespace while \<open>end > str\<close>, so it never clears the first character.
\<close>

definition trim_whitespace :: "string \<Rightarrow> string" where
  "trim_whitespace str =
     (case dropWhile isspace str of
        [] \<Rightarrow> []
      | c # cs \<Rightarrow> c # rev (dropWhile isspace (rev cs)))"

definition preprocess :: "string \<Rightarrow> string" where
  "preprocess line = trim_whitespace (strip_comments line)"

subsection \<open>The \<open>sscanf\<close> formats\<close>

text \<open>
  \<open>%s\<close> skips whitespace and reads the characters up to the next whitespace; it fails
  at the end of the input. The result is the token and the unread input.
\<close>

definition scan_s :: "string \<Rightarrow> (string \<times> string) option" where
  "scan_s inp =
     (let s = dropWhile isspace inp in
      if s = [] then None
      else Some (takeWhile (\<lambda>c. \<not> isspace c) s, dropWhile (\<lambda>c. \<not> isspace c) s))"

text \<open>\<open>%[^x]\<close> reads the characters up to the next \<open>x\<close>, at least one, skipping nothing.\<close>

definition scan_until :: "char \<Rightarrow> string \<Rightarrow> (string \<times> string) option" where
  "scan_until x inp =
     (if takeWhile (\<lambda>c. c \<noteq> x) inp = [] then None
      else Some (takeWhile (\<lambda>c. c \<noteq> x) inp, dropWhile (\<lambda>c. c \<noteq> x) inp))"

text \<open>
  \<open>sscanf(line, "%s %[^\n]", label, rest_of_line) == 2\<close>: \<open>Some (label, rest_of_line)\<close>
  exactly when both conversions succeed. A blank in a format skips any whitespace.
\<close>

definition sscanf_label_rest :: "string \<Rightarrow> (string \<times> string) option" where
  "sscanf_label_rest line =
     (case scan_s line of
        None \<Rightarrow> None
      | Some (name, r) \<Rightarrow>
          (case scan_until (CHR 0x0A) (dropWhile isspace r) of
             None \<Rightarrow> None
           | Some (rest_of_line, _) \<Rightarrow> Some (name, rest_of_line)))"

text \<open>\<open>sscanf(line, " %s", instruction)\<close>: the token when the call returns 1.\<close>

definition sscanf_instruction :: "string \<Rightarrow> string option" where
  "sscanf_instruction line = map_option fst (scan_s line)"

text \<open>\<open>sscanf(line, " %s %[^,], %s", instruction, operand1, operand2) == 3\<close>.\<close>

definition sscanf_two_operands :: "string \<Rightarrow> (string \<times> string \<times> string) option" where
  "sscanf_two_operands line =
     (case scan_s line of
        None \<Rightarrow> None
      | Some (instruction, r1) \<Rightarrow>
          (case scan_until (CHR '','') (dropWhile isspace r1) of
             None \<Rightarrow> None
           | Some (operand1, r2) \<Rightarrow>
               (case r2 of
                  [] \<Rightarrow> None
                | c # r3 \<Rightarrow>
                    if c \<noteq> CHR '','' then None
                    else (case scan_s r3 of
                            None \<Rightarrow> None
                          | Some (operand2, _) \<Rightarrow> Some (instruction, operand1, operand2)))))"

text \<open>\<open>sscanf(line, " %s %s", instruction, operand1) == 2\<close>.\<close>

definition sscanf_one_operand :: "string \<Rightarrow> (string \<times> string) option" where
  "sscanf_one_operand line =
     (case scan_s line of
        None \<Rightarrow> None
      | Some (instruction, r1) \<Rightarrow>
          (case scan_s r1 of
             None \<Rightarrow> None
           | Some (operand1, _) \<Rightarrow> Some (instruction, operand1)))"

subsection \<open>\<open>atoi\<close>\<close>

text \<open>
  \<open>atoi\<close>: leading whitespace, an optional sign, then the decimal digits up to the
  first other character; 0 when there is no digit. The model returns the mathematical
  value (C leaves a value outside \<open>int\<close> undefined); the assembler keeps it modulo
  65536 by the cast to \<open>uint16_t\<close>.
\<close>

definition isdigit :: "char \<Rightarrow> bool" where
  "isdigit c = (48 \<le> (of_char c :: nat) \<and> (of_char c :: nat) \<le> 57)"

fun digits_value :: "int \<Rightarrow> string \<Rightarrow> int" where
  "digits_value acc [] = acc"
| "digits_value acc (c # cs) =
     (if isdigit c then digits_value (10 * acc + (of_char c - 48)) cs else acc)"

definition atoi :: "string \<Rightarrow> int" where
  "atoi str =
     (case dropWhile isspace str of
        [] \<Rightarrow> 0
      | c # cs \<Rightarrow>
          if c = CHR ''-'' then - digits_value 0 cs
          else if c = CHR ''+'' then digits_value 0 cs
          else digits_value 0 (c # cs))"

text \<open>
  The operand resolution used for LOAD, STORE, ADD, SUB, OUT, OUTC and DATA: the
  address of the label when \<open>find_label\<close> finds one, \<open>(uint16_t)atoi(operand)\<close> otherwise.
\<close>

definition label_or_literal :: "Label list \<Rightarrow> string \<Rightarrow> word16" where
  "label_or_literal symbol_table operand =
     (case find_label symbol_table operand of
        Some a \<Rightarrow> a
      | None \<Rightarrow> word_of_int (atoi operand))"

subsection \<open>Pass 1\<close>

text \<open>
  The reserved words of the label test, in the order of the \<open>strcmp\<close> chain of
  \<open>first_pass\<close>.
\<close>

definition reserved_words :: "string list" where
  "reserved_words =
     [''LOAD'', ''LOADI'', ''STORE'', ''STOREI'', ''JMP'', ''JMPZ'', ''JMPN'', ''JMPO'',
      ''ADD'', ''ADDR'', ''SUB'', ''SUBR'', ''OUT'', ''OUTC'', ''OUTR'', ''OUTRC'',
      ''OUTI'', ''OUTIC'', ''HALT'', ''DATA'']"

text \<open>The size chain of the branch taken when the label pattern matched.\<close>

definition instruction_size :: "string \<Rightarrow> error + nat" where
  "instruction_size instruction =
     (if instruction = ''HALT'' then Inr 1
      else if instruction \<in> set [''LOAD'', ''STORE'', ''JMP'', ''JMPZ'', ''JMPN'', ''JMPO'',
                                  ''ADD'', ''SUB'', ''OUT'', ''OUTC''] then Inr 4
      else if instruction \<in> set [''LOADI'', ''STOREI'', ''ADDR'', ''SUBR'', ''OUTR'',
                                  ''OUTRC'', ''OUTI'', ''OUTIC''] then Inr 2
      else if instruction = ''DATA'' then Inr 2
      else Inl (Unknown_Instruction_First_Pass instruction))"

text \<open>The size chain of the other branch, which tests DATA first.\<close>

definition instruction_size_unlabelled :: "string \<Rightarrow> error + nat" where
  "instruction_size_unlabelled instruction =
     (if instruction = ''DATA'' then Inr 2
      else if instruction = ''HALT'' then Inr 1
      else if instruction \<in> set [''LOAD'', ''STORE'', ''JMP'', ''JMPZ'', ''JMPN'', ''JMPO'',
                                  ''ADD'', ''SUB'', ''OUT'', ''OUTC''] then Inr 4
      else if instruction \<in> set [''LOADI'', ''STOREI'', ''ADDR'', ''SUBR'', ''OUTR'',
                                  ''OUTRC'', ''OUTI'', ''OUTIC''] then Inr 2
      else Inl (Unknown_Instruction_First_Pass instruction))"

text \<open>
  The body of the \<open>for\<close> loop of \<open>first_pass\<close> for one line. The result is the symbol
  table, the location counter, the content of \<open>lines[i]\<close> afterwards, and the value
  written to \<open>instruction_addresses[i]\<close> (\<open>None\<close> for a skipped blank line).
\<close>

definition first_pass_line ::
  "Label list \<Rightarrow> word16 \<Rightarrow> string \<Rightarrow> error + (Label list \<times> word16 \<times> string \<times> word16 option)" where
  "first_pass_line symbol_table location_counter line =
     (let line_copy = preprocess line in
      if line_copy = [] then Inr (symbol_table, location_counter, line, None)
      else
        (case sscanf_label_rest line_copy of
           Some (name, rest_of_line) \<Rightarrow>
             (case (if name \<notin> set reserved_words
                    then (case add_label symbol_table name location_counter of
                            Inl e \<Rightarrow> Inl e
                          | Inr t \<Rightarrow> Inr (t, rest_of_line))
                    else Inr (symbol_table, line_copy)) of
                Inl e \<Rightarrow> Inl e
              | Inr (symbol_table1, line_copy1) \<Rightarrow>
                  (case sscanf_instruction line_copy1 of
                     None \<Rightarrow> Inl Indeterminate_Instruction
                   | Some instruction \<Rightarrow>
                       (case instruction_size instruction of
                          Inl e \<Rightarrow> Inl e
                        | Inr n \<Rightarrow>
                            Inr (symbol_table1, location_counter + of_nat n, line_copy1,
                                 Some location_counter))))
         | None \<Rightarrow>
             (case sscanf_instruction line_copy of
                None \<Rightarrow> Inl Indeterminate_Instruction
              | Some instruction \<Rightarrow>
                  (case instruction_size_unlabelled instruction of
                     Inl e \<Rightarrow> Inl e
                   | Inr n \<Rightarrow>
                       Inr (symbol_table, location_counter + of_nat n, line,
                            Some location_counter)))))"

fun first_pass_from ::
  "Label list \<Rightarrow> word16 \<Rightarrow> string list
     \<Rightarrow> error + (Label list \<times> word16 \<times> string list \<times> word16 option list)" where
  "first_pass_from symbol_table location_counter [] =
     Inr (symbol_table, location_counter, [], [])"
| "first_pass_from symbol_table location_counter (line # rest) =
     (case first_pass_line symbol_table location_counter line of
        Inl e \<Rightarrow> Inl e
      | Inr (symbol_table1, location_counter1, line1, a) \<Rightarrow>
          (case first_pass_from symbol_table1 location_counter1 rest of
             Inl e \<Rightarrow> Inl e
           | Inr (symbol_table2, location_counter2, rest2, as) \<Rightarrow>
               Inr (symbol_table2, location_counter2, line1 # rest2, a # as)))"

text \<open>\<open>first_pass\<close> starts with the empty table (\<open>label_count = 0\<close>) at address 0.\<close>

definition first_pass ::
  "string list \<Rightarrow> error + (Label list \<times> word16 \<times> string list \<times> word16 option list)" where
  "first_pass lines = first_pass_from [] 0 lines"

subsection \<open>Pass 2\<close>

text \<open>The branch for a line on which the three-conversion format matched.\<close>

definition encode_two_operands :: "Label list \<Rightarrow> string \<Rightarrow> string \<Rightarrow> string \<Rightarrow> error + byte list" where
  "encode_two_operands symbol_table instruction operand1 operand2 =
     (if instruction = ''LOAD'' \<or> instruction = ''ADD'' \<or> instruction = ''SUB''
         \<or> instruction = ''STORE'' then
        (let opcode = (if instruction = ''LOAD'' then LOAD
                       else if instruction = ''ADD'' then ADD
                       else if instruction = ''SUB'' then SUB
                       else if instruction = ''STORE'' then STORE
                       else 0);
             reg_code = get_register_code operand1
         in if reg_code = 0xFF then Inl (Invalid_Register operand1)
            else Inr ([opcode, reg_code] @ write16 (label_or_literal symbol_table operand2)))
      else if instruction = ''LOADI'' \<or> instruction = ''STOREI'' \<or> instruction = ''ADDR''
              \<or> instruction = ''SUBR'' then
        (let opcode = (if instruction = ''LOADI'' then LOADI
                       else if instruction = ''STOREI'' then STOREI
                       else if instruction = ''ADDR'' then ADDR
                       else if instruction = ''SUBR'' then SUBR
                       else 0);
             reg_code1 = get_register_code operand1;
             reg_code2 = get_register_code operand2
         in if reg_code1 = 0xFF \<or> reg_code2 = 0xFF
            then Inl (Invalid_Register_In_Instruction instruction operand1 operand2)
            else Inr [opcode, push_bit 6 reg_code2 OR (reg_code1 AND 0x03)])
      else Inl (Unknown_Two_Operand_Instruction instruction))"

text \<open>The branch for a line on which the two-conversion format matched.\<close>

definition encode_one_operand :: "Label list \<Rightarrow> string \<Rightarrow> string \<Rightarrow> error + byte list" where
  "encode_one_operand symbol_table instruction operand1 =
     (if instruction \<in> set [''JMP'', ''JMPZ'', ''JMPN'', ''JMPO'', ''DATA'', ''OUTR'', ''OUTRC'',
                              ''OUTI'', ''OUTIC'', ''OUT'', ''OUTC''] then
        (if instruction = ''OUTR'' \<or> instruction = ''OUTRC'' \<or> instruction = ''OUTI''
            \<or> instruction = ''OUTIC'' then
           (let opcode = (if instruction = ''OUTR'' then OUTR
                          else if instruction = ''OUTRC'' then OUTRC
                          else if instruction = ''OUTI'' then OUTI
                          else if instruction = ''OUTIC'' then OUTIC
                          else 0);
                reg_code = get_register_code operand1
            in if reg_code = 0xFF then Inl (Invalid_Register operand1)
               else Inr [opcode, reg_code])
         else if instruction = ''OUT'' \<or> instruction = ''OUTC'' then
           (let opcode = (if instruction = ''OUT'' then OUT else OUTC)
            in Inr ([opcode, 0] @ write16 (label_or_literal symbol_table operand1)))
         else if instruction = ''DATA'' then
           Inr (write16 (label_or_literal symbol_table operand1))
         else
           (let opcode = (if instruction = ''JMP'' then JMP
                          else if instruction = ''JMPZ'' then JMPZ
                          else if instruction = ''JMPN'' then JMPN
                          else if instruction = ''JMPO'' then JMPO
                          else 0)
            in case find_label symbol_table operand1 of
                 None \<Rightarrow> Inl (Undefined_Label operand1)
               | Some a \<Rightarrow> Inr ([opcode, 0] @ write16 a)))
      else Inl (Unknown_One_Operand_Instruction instruction))"

text \<open>The branch for a line on which only the instruction was read.\<close>

definition encode_no_operand :: "string \<Rightarrow> error + byte list" where
  "encode_no_operand instruction =
     (if instruction = ''HALT'' then Inr [HALT] else Inl (Unknown_Instruction instruction))"

text \<open>
  The body of the \<open>for\<close> loop of \<open>second_pass\<close> for one line: the bytes it writes with
  \<open>putchar\<close>, or the error it exits with. Every branch writes its bytes only after its
  last check, so a line that fails writes nothing.
\<close>

definition second_pass_line :: "Label list \<Rightarrow> string \<Rightarrow> error + byte list" where
  "second_pass_line symbol_table line =
     (let line_copy = preprocess line in
      if line_copy = [] then Inr []
      else
        (case sscanf_two_operands line_copy of
           Some (instruction, operand1, operand2) \<Rightarrow>
             encode_two_operands symbol_table instruction operand1 operand2
         | None \<Rightarrow>
             (case sscanf_one_operand line_copy of
                Some (instruction, operand1) \<Rightarrow>
                  encode_one_operand symbol_table instruction operand1
              | None \<Rightarrow>
                  (case sscanf_instruction line_copy of
                     Some instruction \<Rightarrow> encode_no_operand instruction
                   | None \<Rightarrow> Inl (Invalid_Instruction_Format line_copy)))))"

text \<open>
  \<open>second_pass\<close>: the bytes written to the standard output, and the error of the line
  at which the pass exits, if any. The bytes of the lines before the failing one have
  been written.
\<close>

fun second_pass :: "Label list \<Rightarrow> string list \<Rightarrow> byte list \<times> error option" where
  "second_pass symbol_table [] = ([], None)"
| "second_pass symbol_table (line # rest) =
     (case second_pass_line symbol_table line of
        Inl e \<Rightarrow> ([], Some e)
      | Inr bytes \<Rightarrow>
          (case second_pass symbol_table rest of
             (out, r) \<Rightarrow> (bytes @ out, r)))"

text \<open>
  The two passes as \<open>main\<close> runs them on the rows of \<open>lines\<close>: Pass 1, then Pass 2 on
  the rows Pass 1 has rewritten. An exit in Pass 1 happens before any \<open>putchar\<close>.
\<close>

definition assemble_rows :: "string list \<Rightarrow> byte list \<times> error option" where
  "assemble_rows rows =
     (case first_pass rows of
        Inl e \<Rightarrow> ([], Some e)
      | Inr (symbol_table, location_counter, rows1, addresses) \<Rightarrow>
          second_pass symbol_table rows1)"

subsection \<open>Reading the source\<close>

text \<open>
  \<open>fgets(buf, n + 1, stdin)\<close> on the unread input: it stores at most \<open>n\<close> characters
  and stops after a newline, which it stores too. The result is what it has stored and
  the input left unread. At the end of the input it stores nothing (and returns
  \<open>NULL\<close>).
\<close>

fun fgets :: "nat \<Rightarrow> string \<Rightarrow> string \<times> string" where
  "fgets 0 inp = ([], inp)"
| "fgets (Suc n) [] = ([], [])"
| "fgets (Suc n) (c # cs) =
     (if c = CHR 0x0A then ([c], cs)
      else (case fgets n cs of (chunk, rest) \<Rightarrow> (c # chunk, rest)))"

text \<open>
  The reading loop of \<open>main\<close>: \<open>fgets\<close> into a row of \<open>MAX_LINE_LENGTH = 100\<close> bytes
  until the end of the input, each row then cut at its first newline. A row is a C
  string, so it also ends at the first NUL character it was given. A source line of
  more than 99 characters is read as several rows.
\<close>

function read_lines :: "string \<Rightarrow> string list" where
  "read_lines inp =
     (if inp = [] then []
      else (case fgets 99 inp of
              (chunk, rest) \<Rightarrow>
                takeWhile (\<lambda>c. c \<noteq> CHR 0x0A \<and> c \<noteq> CHR 0x00) chunk # read_lines rest))"
  by pat_completeness auto
termination
  apply (relation "measure length")
   apply simp
  subgoal premises prems for inp chunk rest
  proof -
    have le: "length (snd (fgets n s)) \<le> length s" for n s
    proof (induction n arbitrary: s)
      case 0
      show ?case by simp
    next
      case (Suc n)
      show ?case
      proof (cases s)
        case Nil
        then show ?thesis by simp
      next
        case (Cons c cs)
        with Suc [of cs] show ?thesis by (cases "fgets n cs") auto
      qed
    qed
    obtain c cs where inp: "inp = c # cs" using prems(1) by (cases inp) auto
    have lt: "length (snd (fgets (Suc n) (c # cs))) < Suc (length cs)" for n
      using le [of n cs] by (cases "fgets n cs") auto
    have "length (snd (fgets 99 inp)) < length inp"
      using lt [of 98] inp by simp
    moreover have "rest = snd (fgets 99 inp)" using prems(2) by (metis snd_conv)
    ultimately show ?thesis by simp
  qed
  done

declare read_lines.simps [simp del]

text \<open>
  \<open>main\<close> of sasm.c on the text of the standard input: the reading loop, then the two
  passes. The array \<open>lines\<close> has 1024 rows and the loop does not count them.
\<close>

definition sasm_main :: "string \<Rightarrow> byte list \<times> error option" where
  "sasm_main source =
     (let rows = read_lines source in
      if length rows > 1024 then ([], Some Lines_Out_Of_Array)
      else assemble_rows rows)"

section \<open>Properties named by the specification\<close>

text \<open>
  The sign bit of a 16-bit value is bit 15. \<open>overflow_add\<close>: both operands share the
  same sign bit and the result's sign bit differs from theirs. \<open>overflow_sub\<close>: the
  operands' sign bits differ and the result's sign bit differs from the first
  operand's.
\<close>

definition overflow_add :: "word16 \<Rightarrow> word16 \<Rightarrow> word16 \<Rightarrow> bool" where
  "overflow_add a b r = (bit a 15 = bit b 15 \<and> bit r 15 \<noteq> bit a 15)"

definition overflow_sub :: "word16 \<Rightarrow> word16 \<Rightarrow> word16 \<Rightarrow> bool" where
  "overflow_sub a b r = (bit a 15 \<noteq> bit b 15 \<and> bit r 15 \<noteq> bit a 15)"

text \<open>Z and N are set from the value \<open>r\<close>, and O is 1 exactly when \<open>ov\<close> holds.\<close>

definition flags_are :: "CPU \<Rightarrow> word16 \<Rightarrow> bool \<Rightarrow> bool" where
  "flags_are c r ov =
     (flag_Z c = of_bool (r = 0) \<and> flag_N c = of_bool (bit r 15) \<and> flag_O c = of_bool ov)"

text \<open>
  The state of the CPU \<open>c\<close> after an addition (a subtraction) of \<open>b\<close> to (from) the
  register selected by \<open>reg\<close>, which held \<open>a\<close>: the register holds the result modulo
  65536 and the flags follow from it.
\<close>

definition add_outcome :: "CPU \<Rightarrow> byte \<Rightarrow> word16 \<Rightarrow> word16 \<Rightarrow> bool" where
  "add_outcome c reg a b =
     (uint (data_register reg c) = (uint a + uint b) mod 65536
      \<and> flags_are c (data_register reg c) (overflow_add a b (data_register reg c)))"

definition sub_outcome :: "CPU \<Rightarrow> byte \<Rightarrow> word16 \<Rightarrow> word16 \<Rightarrow> bool" where
  "sub_outcome c reg a b =
     (uint (data_register reg c) = (uint a - uint b) mod 65536
      \<and> flags_are c (data_register reg c) (overflow_sub a b (data_register reg c)))"


text \<open>
  The label that \<open>first_pass\<close> registers for a line, if any: the first token of the
  preprocessed line, when the label pattern matches and the token is not reserved.
\<close>

definition line_label :: "string \<Rightarrow> string option" where
  "line_label line =
     (case sscanf_label_rest (preprocess line) of
        Some (name, rest_of_line) \<Rightarrow> if name \<notin> set reserved_words then Some name else None
      | None \<Rightarrow> None)"

text \<open>
  The mnemonic of a line: the token that \<open>first_pass\<close> compares with the instruction
  names, read from the line after its label, if it has one, has been removed. A blank
  line has none.
\<close>

definition line_mnemonic :: "string \<Rightarrow> string option" where
  "line_mnemonic line =
     (let line_copy = preprocess line in
      if line_copy = [] then None
      else
        (case sscanf_label_rest line_copy of
           Some (name, rest_of_line) \<Rightarrow>
             sscanf_instruction (if name \<notin> set reserved_words then rest_of_line else line_copy)
         | None \<Rightarrow> sscanf_instruction line_copy))"

text \<open>
  The length table of the instruction set: 1 byte for HALT, 4 bytes for LOAD, STORE,
  JMP, JMPZ, JMPN, JMPO, ADD, SUB, OUT and OUTC, 2 bytes for the other mnemonics.
\<close>

definition mnemonic_length :: "string \<Rightarrow> nat" where
  "mnemonic_length m =
     (if m = ''HALT'' then 1
      else if m \<in> set [''LOAD'', ''STORE'', ''JMP'', ''JMPZ'', ''JMPN'', ''JMPO'', ''ADD'', ''SUB'',
                        ''OUT'', ''OUTC''] then 4
      else 2)"

text \<open>
  A source text given by its lines: the lines \<open>ls\<close>, each ended by a newline, then a
  last line \<open>final\<close> that no newline ends (empty when the text ends with a newline).
  Every text is of this form, with lines that contain no newline.
\<close>

definition source_text :: "string list \<Rightarrow> string \<Rightarrow> string" where
  "source_text ls final = concat (map (\<lambda>l. l @ [CHR 0x0A]) ls) @ final"

text \<open>
  A line that \<open>main\<close> reads as one row with the same content: at most 99 characters,
  none of them a newline or NUL.
\<close>

definition fits_row :: "string \<Rightarrow> bool" where
  "fits_row l = (length l \<le> 99 \<and> CHR 0x0A \<notin> set l \<and> CHR 0x00 \<notin> set l)"

text \<open>
  The operands of a preprocessed row have the form its instruction needs: a valid
  register name and a second operand for LOAD, STORE, ADD and SUB; two valid register
  names for LOADI, STOREI, ADDR and SUBR; one operand for OUT, OUTC and DATA; one
  valid register name for OUTR, OUTRC, OUTI and OUTIC; one operand that is a defined
  label for JMP, JMPZ, JMPN and JMPO; none for HALT. Which operands a row has is what
  the three formats of \<open>second_pass\<close> read from it, tried in its order.
\<close>

definition operands_fit :: "Label list \<Rightarrow> string \<Rightarrow> bool" where
  "operands_fit symbol_table row =
     (case sscanf_two_operands row of
        Some (i, a, b) \<Rightarrow>
          (i \<in> set [''LOAD'', ''STORE'', ''ADD'', ''SUB''] \<and> get_register_code a \<noteq> 0xFF)
          \<or> (i \<in> set [''LOADI'', ''STOREI'', ''ADDR'', ''SUBR'']
              \<and> get_register_code a \<noteq> 0xFF \<and> get_register_code b \<noteq> 0xFF)
      | None \<Rightarrow>
          (case sscanf_one_operand row of
             Some (i, a) \<Rightarrow>
               i \<in> set [''OUT'', ''OUTC'', ''DATA'']
               \<or> (i \<in> set [''OUTR'', ''OUTRC'', ''OUTI'', ''OUTIC'']
                   \<and> get_register_code a \<noteq> 0xFF)
               \<or> (i \<in> set [''JMP'', ''JMPZ'', ''JMPN'', ''JMPO'']
                   \<and> find_label symbol_table a \<noteq> None)
           | None \<Rightarrow> sscanf_instruction row = Some ''HALT''))"

section \<open>Evaluation and auxiliary facts\<close>

lemmas opcode_defs =
  HALT_def LOAD_def LOADI_def STORE_def STOREI_def JMP_def JMPZ_def JMPN_def JMPO_def
  ADD_def ADDR_def SUB_def SUBR_def OUT_def OUTC_def OUTR_def OUTRC_def OUTI_def OUTIC_def

lemmas register_defs = A1_def A2_def R1_def R2_def

lemmas vm_defs =
  svm_main_def boot_def load_program_def initialize_cpu_def processor_step_def fetch_byte_def
  read_memory_def write_memory_def store16_def MEMORY_SIZE_def running_def fetchImmediate_def
  exec_LOAD_def exec_LOADI_def exec_STORE_def exec_STOREI_def exec_ADD_def exec_SUB_def
  exec_ADDR_def exec_SUBR_def exec_immediate_arith_def exec_register_arith_def exec_JMP_def
  exec_LOADI_registers_def exec_STOREI_registers_def exec_register_arith_registers_def
  packed_reg1_def packed_reg2_def
  exec_OUT_def exec_OUTC_def exec_OUTR_def exec_OUTRC_def exec_OUTI_def exec_OUTIC_def
  set_flags_def set_flags_for_load_def arith_def data_register_def address_operand_def
  opcode_defs register_defs

lemma processor_cycle_numeral:
  "processor_cycle (numeral k) s =
     (case processor_step s of
        Inl f \<Rightarrow> Some (Inl f)
      | Inr (Halted, s') \<Rightarrow> Some (Inr s')
      | Inr (Running, s') \<Rightarrow> processor_cycle (pred_numeral k) s')"
  by (simp add: numeral_eq_Suc)

lemma sign_mask: "(x::word16) AND 0x8000 = (if bit x 15 then 0x8000 else 0)"
proof -
  have "x AND 2 ^ 15 = (if bit x 15 then 2 ^ 15 else 0)"
    by (rule bit_word_eqI) (auto simp only: bit_and_iff bit_exp_iff bit_0_eq split: if_splits)
  then show ?thesis by simp
qed

lemma sign_mask_eq: "((x::word16) AND 0x8000 = y AND 0x8000) = (bit x 15 = bit y 15)"
  by (simp add: sign_mask)

lemma sign_mask_nz: "((x::word16) AND 0x8000 \<noteq> 0) = bit x 15"
  by (simp add: sign_mask)

lemma set_flags_sel [simp]:
  "flag_Z (set_flags a b r op c) = of_bool (r = 0)"
  "flag_N (set_flags a b r op c) = of_bool (bit r 15)"
  "flag_O (set_flags a b r (CHR ''+'') c) = of_bool (overflow_add a b r)"
  "flag_O (set_flags a b r (CHR ''-'') c) = of_bool (overflow_sub a b r)"
  "REG1 (set_flags a b r op c) = REG1 c"
  "REG2 (set_flags a b r op c) = REG2 c"
  "ADDR1 (set_flags a b r op c) = ADDR1 c"
  "ADDR2 (set_flags a b r op c) = ADDR2 c"
  "PC (set_flags a b r op c) = PC c"
  by (simp_all add: set_flags_def overflow_add_def overflow_sub_def sign_mask_eq sign_mask_nz)

lemma unat_PC_succ: "unat (a::word16) < MEMORY_SIZE \<Longrightarrow> unat (a + 1) = unat a + 1"
  by (simp add: MEMORY_SIZE_def unat_word_ariths)

lemma fetch_byte_Inr:
  "fetch_byte s = Inr (b, s1) \<Longrightarrow>
     unat (PC (cpu s)) < MEMORY_SIZE \<and> b = memory s (unat (PC (cpu s)))
     \<and> s1 = s\<lparr>cpu := (cpu s)\<lparr>PC := PC (cpu s) + 1\<rparr>\<rparr>"
  by (auto simp: fetch_byte_def read_memory_def split: if_splits)

lemma fetch_byte_in_range:
  "unat (PC (cpu s)) < MEMORY_SIZE \<Longrightarrow>
   fetch_byte s = Inr (memory s (unat (PC (cpu s))), s\<lparr>cpu := (cpu s)\<lparr>PC := PC (cpu s) + 1\<rparr>\<rparr>)"
  by (simp add: fetch_byte_def read_memory_def)

subsection \<open>The arithmetic handlers\<close>

lemma exec_immediate_arith_data:
  assumes "fetch_byte s = Inr (reg, s1)"
    and "fetchImmediate (memory s1) (PC (cpu s1)) = Inr imm"
    and "reg = R1 \<or> reg = R2"
  shows "exec_immediate_arith op s =
           Inr (s\<lparr>cpu := set_flags (data_register reg (cpu s)) imm
                  (arith op (data_register reg (cpu s)) imm) op
                  (if reg = R1
                   then (cpu s)\<lparr>PC := PC (cpu s) + 1 + 2, REG1 := arith op (REG1 (cpu s)) imm\<rparr>
                   else (cpu s)\<lparr>PC := PC (cpu s) + 1 + 2, REG2 := arith op (REG2 (cpu s)) imm\<rparr>)\<rparr>)"
  using assms fetch_byte_Inr [OF assms(1)]
  by (auto simp: exec_immediate_arith_def data_register_def register_defs)

lemma exec_register_arith_any:
  assumes "fetch_byte s = Inr (b, s1)"
  shows "exec_register_arith op s =
           Inr (s\<lparr>cpu := set_flags (data_register (b AND 3) (cpu s))
                  (data_register (drop_bit 6 b AND 3) (cpu s))
                  (arith op (data_register (b AND 3) (cpu s))
                     (data_register (drop_bit 6 b AND 3) (cpu s))) op
                  (if b AND 3 = R1
                   then (cpu s)\<lparr>PC := PC (cpu s) + 1,
                          REG1 := arith op (data_register (b AND 3) (cpu s))
                                    (data_register (drop_bit 6 b AND 3) (cpu s))\<rparr>
                   else (cpu s)\<lparr>PC := PC (cpu s) + 1,
                          REG2 := arith op (data_register (b AND 3) (cpu s))
                                    (data_register (drop_bit 6 b AND 3) (cpu s))\<rparr>)\<rparr>)"
  using assms fetch_byte_Inr [OF assms(1)]
  by (auto simp: exec_register_arith_def exec_register_arith_registers_def packed_reg1_def
      packed_reg2_def data_register_def register_defs Let_def)

lemma exec_ADD_outcome:
  assumes "fetch_byte s = Inr (reg, s1)"
    and "fetchImmediate (memory s1) (PC (cpu s1)) = Inr imm"
    and "reg = R1 \<or> reg = R2"
  shows "\<exists>s'. exec_ADD s = Inr s' \<and> add_outcome (cpu s') reg (data_register reg (cpu s)) imm"
  unfolding exec_ADD_def exec_immediate_arith_data [OF assms]
  using assms(3)
  by (auto simp: add_outcome_def flags_are_def arith_def data_register_def register_defs
        uint_word_ariths)

lemma exec_SUB_outcome:
  assumes "fetch_byte s = Inr (reg, s1)"
    and "fetchImmediate (memory s1) (PC (cpu s1)) = Inr imm"
    and "reg = R1 \<or> reg = R2"
  shows "\<exists>s'. exec_SUB s = Inr s' \<and> sub_outcome (cpu s') reg (data_register reg (cpu s)) imm"
  unfolding exec_SUB_def exec_immediate_arith_data [OF assms]
  using assms(3)
  by (auto simp: sub_outcome_def flags_are_def arith_def data_register_def register_defs
        uint_word_ariths)

lemma exec_ADDR_outcome:
  assumes "fetch_byte s = Inr (b, s1)"
  shows "\<exists>s'. exec_ADDR s = Inr s'
           \<and> add_outcome (cpu s') (b AND 3) (data_register (b AND 3) (cpu s))
                (data_register (drop_bit 6 b AND 3) (cpu s))"
  unfolding exec_ADDR_def exec_register_arith_any [OF assms]
  by (simp add: add_outcome_def flags_are_def arith_def data_register_def register_defs
        uint_word_ariths)

lemma exec_SUBR_outcome:
  assumes "fetch_byte s = Inr (b, s1)"
  shows "\<exists>s'. exec_SUBR s = Inr s'
           \<and> sub_outcome (cpu s') (b AND 3) (data_register (b AND 3) (cpu s))
                (data_register (drop_bit 6 b AND 3) (cpu s))"
  unfolding exec_SUBR_def exec_register_arith_any [OF assms]
  by (simp add: sub_outcome_def flags_are_def arith_def data_register_def register_defs
        uint_word_ariths)

lemma two_flagged_additions:
  "\<exists>s'. svm_main 3 [0x68, 1, 0x7F, 0xFF, 0x68, 1, 0x00, 0x01, 0x31] = Some (Inr s')
        \<and> REG1 (cpu s') = 0x8000 \<and> flag_O (cpu s') = 1 \<and> flag_N (cpu s') = 1
        \<and> flag_Z (cpu s') = 0"
  by (simp add: processor_cycle_numeral vm_defs)

text \<open>
  Claim C5. When ADD or SUB executes on a data register (\<open>R1\<close> or \<open>R2\<close>), and whenever
  ADDR or SUBR executes, the destination register holds the sum (the difference)
  modulo 65536, Z and N are set from that wrapped result, and O is 1 exactly when the
  operands share a sign bit and the result's differs (for the subtractions: when the
  operands' sign bits differ and the result's differs from the first operand's). The
  program \<open>ADD R1, 32767; ADD R1, 1; HALT\<close>, run from the initial CPU, halts with
  \<open>R1 = 0x8000\<close>, \<open>O = 1\<close>, \<open>N = 1\<close> and \<open>Z = 0\<close>.
\<close>

theorem arithmetic_flags:
  assumes "fetch_byte s = Inr (b, s1)"
  shows "((b = R1 \<or> b = R2) \<and> fetchImmediate (memory s1) (PC (cpu s1)) = Inr imm \<longrightarrow>
            (\<exists>s'. exec_ADD s = Inr s' \<and> add_outcome (cpu s') b (data_register b (cpu s)) imm)
          \<and> (\<exists>s'. exec_SUB s = Inr s' \<and> sub_outcome (cpu s') b (data_register b (cpu s)) imm))
       \<and> (\<exists>s'. exec_ADDR s = Inr s'
             \<and> add_outcome (cpu s') (b AND 3) (data_register (b AND 3) (cpu s))
                  (data_register (drop_bit 6 b AND 3) (cpu s)))
       \<and> (\<exists>s'. exec_SUBR s = Inr s'
             \<and> sub_outcome (cpu s') (b AND 3) (data_register (b AND 3) (cpu s))
                  (data_register (drop_bit 6 b AND 3) (cpu s)))
       \<and> (\<exists>s'. svm_main 3 [0x68, 1, 0x7F, 0xFF, 0x68, 1, 0x00, 0x01, 0x31] = Some (Inr s')
             \<and> REG1 (cpu s') = 0x8000 \<and> flag_O (cpu s') = 1 \<and> flag_N (cpu s') = 1
             \<and> flag_Z (cpu s') = 0)"
  using exec_ADD_outcome [OF assms] exec_SUB_outcome [OF assms]
    exec_ADDR_outcome [OF assms] exec_SUBR_outcome [OF assms] two_flagged_additions
  by blast

text \<open>
  The theorem at \<open>ADD R1, 32767\<close> in a fresh machine, after the opcode has been
  fetched: the hypotheses hold and \<open>R1\<close> becomes \<open>0 + 32767\<close> with the flags of an
  addition.
\<close>

theorem arithmetic_flags_witness:
  "fetch_byte ((boot [0x68, 1, 0x7F, 0xFF])\<lparr>cpu := initialize_cpu\<lparr>PC := 1\<rparr>\<rparr>)
     = Inr (R1, (boot [0x68, 1, 0x7F, 0xFF])\<lparr>cpu := initialize_cpu\<lparr>PC := 2\<rparr>\<rparr>)
   \<and> fetchImmediate (memory (boot [0x68, 1, 0x7F, 0xFF])) 2 = Inr 0x7FFF
   \<and> (\<exists>s'. exec_ADD ((boot [0x68, 1, 0x7F, 0xFF])\<lparr>cpu := initialize_cpu\<lparr>PC := 1\<rparr>\<rparr>) = Inr s'
         \<and> add_outcome (cpu s') R1 0 0x7FFF)"
proof -
  let ?W = "(boot [0x68, 1, 0x7F, 0xFF])\<lparr>cpu := initialize_cpu\<lparr>PC := 1\<rparr>\<rparr>"
  let ?W1 = "(boot [0x68, 1, 0x7F, 0xFF])\<lparr>cpu := initialize_cpu\<lparr>PC := 2\<rparr>\<rparr>"
  have f: "fetch_byte ?W = Inr (R1, ?W1)"
    by (simp add: vm_defs)
  have i: "fetchImmediate (memory (boot [0x68, 1, 0x7F, 0xFF])) 2 = Inr 0x7FFF"
    by (simp add: vm_defs)
  have "\<exists>s'. exec_ADD ?W = Inr s' \<and> add_outcome (cpu s') R1 (data_register R1 (cpu ?W)) 0x7FFF"
    using arithmetic_flags [OF f, of "0x7FFF"] i by simp
  then show ?thesis
    using f i by (simp add: data_register_def initialize_cpu_def)
qed

subsection \<open>The loader\<close>

lemma load_loop_spec:
  "load_loop a input mem i =
     (if unat a \<le> i \<and> i < unat a + length input \<and> i < MEMORY_SIZE
      then input ! (i - unat a) else mem i)"
proof (induction input arbitrary: a mem)
  case Nil
  then show ?case by auto
next
  case (Cons b rest)
  show ?case
  proof (cases "unat a < MEMORY_SIZE")
    case True
    then have u: "unat (a + 1) = unat a + 1" by (rule unat_PC_succ)
    show ?thesis using True by (auto simp: Cons.IH u nth_Cons')
  next
    case False
    then show ?thesis by auto
  qed
qed

text \<open>
  Claim C9. The loader copies the input into memory from address 0 and stops at the
  capacity: cell \<open>i\<close> holds input byte \<open>i\<close> for every \<open>i\<close> below both the length of the
  input and 32768, and every other cell keeps its content. A stream of exactly 32768
  bytes is therefore loaded in full, the bytes of a longer stream from index 32768 on
  are not loaded, and the loader has no error result.
\<close>

theorem load_program_truncates:
  "load_program input mem =
     (\<lambda>i. if i < length input \<and> i < MEMORY_SIZE then input ! i else mem i)"
  by (rule ext) (simp add: load_program_def load_loop_spec)

subsection \<open>Unchecked stores\<close>

text \<open>
  Claim C1 asks that a 16-bit write of STORE or STOREI at or beyond the capacity exit
  with a diagnostic, as \<open>fetchImmediate\<close> does for a 16-bit read. The handlers write
  without a check. \<open>STORE R1, 32767\<close> stores its second byte at index 32768, and
  \<open>LOAD A1, 65535; STOREI R1, A1\<close> stores its first byte at index 65535: both are
  accesses outside the array, and neither is an \<open>Exit\<close> with a diagnostic.
\<close>

theorem store_beyond_capacity_unchecked:
  "processor_step (boot [0x62, 0x01, 0x7F, 0xFF]) = Inl (Out_Of_Array 32768)
   \<and> svm_main 2 [0x60, 0x03, 0xFF, 0xFF, 0x63, 0xC1] = Some (Inl (Out_Of_Array 65535))"
  by (simp add: processor_cycle_numeral vm_defs)

subsection \<open>ADD and SUB with a register byte that names no data register\<close>

text \<open>
  Claim C10, as stated, fails where the immediate of the instruction does not lie
  inside memory. An ADD whose register byte is 2 placed at address 32765 has its
  immediate at 32767, and \<open>fetchImmediate\<close> exits with its diagnostic. The second
  conjunct reaches that state from a 12-byte program:
  \<open>LOAD R1, 0x6802; STORE R1, 32765; JMP 32765\<close>.
\<close>

theorem invalid_register_add_counterexample:
  "processor_step
     \<lparr>cpu = initialize_cpu\<lparr>PC := 0x7FFD\<rparr>,
      memory = (memory (boot []))(32765 := ADD, 32766 := 2),
      stdout = []\<rparr>
     = Inl (Exit (Memory_Out_Of_Bounds 0x7FFF))
   \<and> svm_main 4 [0x60, 0x01, 0x68, 0x02, 0x62, 0x01, 0x7F, 0xFD, 0x64, 0x00, 0x7F, 0xFD]
     = Some (Inl (Exit (Memory_Out_Of_Bounds 0x7FFF)))"
  by (simp add: processor_cycle_numeral vm_defs)

text \<open>
  Claim C10, amended. When the four bytes of an ADD or SUB instruction lie inside
  memory (the program counter is at most 32764) and its register byte is neither \<open>R1\<close>
  nor \<open>R2\<close>, the step raises no error and changes nothing but the program counter,
  which advances by 4: every register, every flag, all of memory and the output are
  those of the state before.
\<close>

theorem invalid_register_add_sub_noop:
  assumes "unat (PC (cpu s)) + 3 < MEMORY_SIZE"
    and "memory s (unat (PC (cpu s))) = ADD \<or> memory s (unat (PC (cpu s))) = SUB"
    and "memory s (unat (PC (cpu s)) + 1) \<noteq> R1"
    and "memory s (unat (PC (cpu s)) + 1) \<noteq> R2"
  shows "processor_step s = Inr (Running, s\<lparr>cpu := (cpu s)\<lparr>PC := PC (cpu s) + 4\<rparr>\<rparr>)"
proof -
  let ?pc = "PC (cpu s)"
  have p0: "unat ?pc < MEMORY_SIZE" using assms(1) by simp
  have u1: "unat (?pc + 1) = unat ?pc + 1" using p0 by (rule unat_PC_succ)
  have p1: "unat (?pc + 1) < MEMORY_SIZE" using assms(1) u1 by simp
  have u2: "unat (?pc + 1 + 1) = unat ?pc + 2" using unat_PC_succ [OF p1] u1 by simp
  have f0: "fetch_byte s = Inr (memory s (unat ?pc), s\<lparr>cpu := (cpu s)\<lparr>PC := ?pc + 1\<rparr>\<rparr>)"
    using p0 by (rule fetch_byte_in_range)
  have f1: "fetch_byte (s\<lparr>cpu := (cpu s)\<lparr>PC := ?pc + 1\<rparr>\<rparr>)
              = Inr (memory s (unat ?pc + 1), s\<lparr>cpu := (cpu s)\<lparr>PC := ?pc + 1 + 1\<rparr>\<rparr>)"
    using p1 u1 by (simp add: fetch_byte_def read_memory_def)
  have "\<exists>imm. fetchImmediate (memory s) (?pc + 1 + 1) = Inr imm"
    using assms(1) u2 by (simp add: fetchImmediate_def)
  then obtain imm where imm: "fetchImmediate (memory s) (?pc + 1 + 1) = Inr imm" ..
  have e: "exec_immediate_arith op (s\<lparr>cpu := (cpu s)\<lparr>PC := ?pc + 1\<rparr>\<rparr>)
             = Inr (s\<lparr>cpu := (cpu s)\<lparr>PC := ?pc + 4\<rparr>\<rparr>)" for op
    using assms(3,4) f1 imm by (simp add: exec_immediate_arith_def)
  show ?thesis
    using assms(2) f0 e [of "CHR ''+''"] e [of "CHR ''-''"]
    by (auto simp: processor_step_def running_def exec_ADD_def exec_SUB_def opcode_defs)
qed

text \<open>The theorem at \<open>ADD\<close> with register byte 2 and immediate 5, at address 0.\<close>

theorem invalid_register_add_sub_noop_witness:
  "unat (PC (cpu (boot [0x68, 0x02, 0x00, 0x05]))) + 3 < MEMORY_SIZE
   \<and> memory (boot [0x68, 0x02, 0x00, 0x05]) 0 = ADD
   \<and> memory (boot [0x68, 0x02, 0x00, 0x05]) 1 \<noteq> R1
   \<and> memory (boot [0x68, 0x02, 0x00, 0x05]) 1 \<noteq> R2
   \<and> processor_step (boot [0x68, 0x02, 0x00, 0x05])
       = Inr (Running, (boot [0x68, 0x02, 0x00, 0x05])\<lparr>cpu := initialize_cpu\<lparr>PC := 4\<rparr>\<rparr>)"
proof -
  let ?s = "boot [0x68, 0x02, 0x00, 0x05]"
  have h1: "unat (PC (cpu ?s)) + 3 < MEMORY_SIZE"
    by (simp add: boot_def initialize_cpu_def MEMORY_SIZE_def)
  have h2: "memory ?s (unat (PC (cpu ?s))) = ADD \<or> memory ?s (unat (PC (cpu ?s))) = SUB"
    by (simp add: boot_def initialize_cpu_def load_program_def MEMORY_SIZE_def ADD_def)
  have h3: "memory ?s (unat (PC (cpu ?s)) + 1) \<noteq> R1"
    by (simp add: boot_def initialize_cpu_def load_program_def MEMORY_SIZE_def R1_def)
  have h4: "memory ?s (unat (PC (cpu ?s)) + 1) \<noteq> R2"
    by (simp add: boot_def initialize_cpu_def load_program_def MEMORY_SIZE_def R2_def)
  show ?thesis
    using invalid_register_add_sub_noop [OF h1 h2 h3 h4] h1 h3 h4
    by (simp add: boot_def initialize_cpu_def load_program_def MEMORY_SIZE_def ADD_def)
qed

subsection \<open>Packed register bytes\<close>










section \<open>Facts about the assembler\<close>

lemma instruction_size_unlabelled_eq: "instruction_size_unlabelled i = instruction_size i"
  by (simp add: instruction_size_unlabelled_def instruction_size_def)

lemma instruction_size_reserved:
  "i \<in> set reserved_words \<Longrightarrow> \<exists>n. instruction_size i = Inr n"
  by (auto simp: instruction_size_def reserved_words_def)

lemma instruction_size_unknown:
  "i \<notin> set reserved_words \<Longrightarrow> instruction_size i = Inl (Unknown_Instruction_First_Pass i)"
  by (simp add: instruction_size_def reserved_words_def)

lemma instruction_size_Inl:
  "instruction_size i = Inl e \<Longrightarrow> e = Unknown_Instruction_First_Pass i"
  by (auto simp: instruction_size_def split: if_splits)

lemma encode_two_operands_size:
  "encode_two_operands t i a b = Inr bytes \<Longrightarrow> instruction_size i = Inr (length bytes)"
  by (auto simp: encode_two_operands_def instruction_size_def Let_def write16_def split: if_splits)

lemma encode_one_operand_size:
  "encode_one_operand t i a = Inr bytes \<Longrightarrow> instruction_size i = Inr (length bytes)"
  by (auto simp: encode_one_operand_def instruction_size_def Let_def write16_def
      split: if_splits option.splits)

lemma encode_no_operand_size:
  "encode_no_operand i = Inr bytes \<Longrightarrow> instruction_size i = Inr (length bytes)"
  by (auto simp: encode_no_operand_def instruction_size_def split: if_splits)

lemma sscanf_two_operands_token:
  "sscanf_two_operands l = Some (i, a, b) \<Longrightarrow> sscanf_instruction l = Some i"
  by (auto simp: sscanf_two_operands_def sscanf_instruction_def
      split: option.splits list.splits if_splits)

lemma sscanf_one_operand_token:
  "sscanf_one_operand l = Some (i, a) \<Longrightarrow> sscanf_instruction l = Some i"
  by (auto simp: sscanf_one_operand_def sscanf_instruction_def split: option.splits)

lemma second_pass_line_size:
  assumes "second_pass_line t l = Inr bytes" and "preprocess l \<noteq> []"
  shows "\<exists>i. sscanf_instruction (preprocess l) = Some i \<and> instruction_size i = Inr (length bytes)"
  using assms
  by (auto simp: second_pass_line_def Let_def
      dest: sscanf_two_operands_token sscanf_one_operand_token
        encode_two_operands_size encode_one_operand_size encode_no_operand_size
      split: option.splits)


lemma dropWhile_head: "dropWhile P xs = c # cs \<Longrightarrow> \<not> P c"
  using hd_dropWhile [of P xs] by auto

lemma strip_right_Cons:
  "rev (dropWhile P (rev (x # xs))) =
     (if rev (dropWhile P (rev xs)) = [] then (if P x then [] else [x])
      else x # rev (dropWhile P (rev xs)))"
  by (auto simp: dropWhile_append)

lemma takeWhile_all_not: "\<forall>x\<in>set xs. P x \<Longrightarrow> takeWhile (\<lambda>c. \<not> P c) xs = []"
  by (cases xs) auto

lemma takeWhile_strip_right:
  "takeWhile (\<lambda>c. \<not> P c) (rev (dropWhile P (rev xs))) = takeWhile (\<lambda>c. \<not> P c) xs"
proof (induction xs)
  case Nil
  then show ?case by simp
next
  case (Cons x xs)
  show ?case
  proof (cases "P x")
    case True
    then show ?thesis by (simp only: strip_right_Cons) simp
  next
    case False
    then show ?thesis using Cons.IH
      by (simp only: strip_right_Cons) (auto simp: takeWhile_all_not split: if_splits)
  qed
qed

lemma set_trim_whitespace: "set (trim_whitespace s) \<subseteq> set s"
proof -
  have "set (dropWhile isspace s) \<subseteq> set s" by (auto dest: set_dropWhileD)
  moreover have "set (trim_whitespace s) \<subseteq> set (dropWhile isspace s)"
  proof (cases "dropWhile isspace s")
    case Nil
    show ?thesis unfolding trim_whitespace_def Nil by simp
  next
    case (Cons c cs)
    have "trim_whitespace s = c # rev (dropWhile isspace (rev cs))"
      unfolding trim_whitespace_def Cons by simp
    moreover have "set (rev (dropWhile isspace (rev cs))) \<subseteq> set cs"
      by (auto dest: set_dropWhileD)
    ultimately show ?thesis using Cons by auto
  qed
  ultimately show ?thesis by blast
qed

lemma preprocess_no_hash: "CHR ''#'' \<notin> set (preprocess l)"
proof -
  have "CHR ''#'' \<notin> set (strip_comments l)"
    by (auto simp: strip_comments_def dest: set_takeWhileD)
  then show ?thesis using set_trim_whitespace [of "strip_comments l"]
    by (auto simp: preprocess_def)
qed

lemma preprocess_head: "preprocess l = c # cs \<Longrightarrow> \<not> isspace c"
  by (auto simp: preprocess_def trim_whitespace_def split: list.splits dest: dropWhile_head)

lemma scan_s_head: "\<not> isspace c \<Longrightarrow> scan_s (c # cs) = Some (c # takeWhile (\<lambda>c. \<not> isspace c) cs, dropWhile (\<lambda>c. \<not> isspace c) cs)"
  by (simp add: scan_s_def)

lemma sscanf_instruction_head:
  "\<not> isspace c \<Longrightarrow> sscanf_instruction (c # cs) = Some (c # takeWhile (\<lambda>c. \<not> isspace c) cs)"
  by (simp add: sscanf_instruction_def scan_s_head)

lemma preprocess_token:
  assumes "CHR ''#'' \<notin> set (c # cs)" and "\<not> isspace c"
  shows "preprocess (c # cs) \<noteq> [] \<and> sscanf_instruction (preprocess (c # cs)) = sscanf_instruction (c # cs)"
proof -
  have s: "strip_comments (c # cs) = c # cs"
    unfolding strip_comments_def using assms(1) by (subst takeWhile_eq_all_conv) auto
  have t: "trim_whitespace (c # cs) = c # rev (dropWhile isspace (rev cs))"
    using assms(2) by (simp add: trim_whitespace_def)
  show ?thesis
    using assms(2) by (simp add: preprocess_def s t sscanf_instruction_head takeWhile_strip_right)
qed

lemma sscanf_label_rest_props:
  assumes "sscanf_label_rest l = Some (n, rest)"
  shows "rest \<noteq> [] \<and> \<not> isspace (hd rest) \<and> set rest \<subseteq> set l"
proof -
  from assms obtain r where r: "scan_s l = Some (n, r)"
    and u: "scan_until (CHR 0x0A) (dropWhile isspace r) = Some (rest, dropWhile (\<lambda>c. c \<noteq> CHR 0x0A) (dropWhile isspace r))"
    by (auto simp: sscanf_label_rest_def scan_until_def split: option.splits if_splits)
  from u have rest: "rest = takeWhile (\<lambda>c. c \<noteq> CHR 0x0A) (dropWhile isspace r)" and ne: "rest \<noteq> []"
    by (auto simp: scan_until_def split: if_splits)
  from ne rest obtain c cs where d: "dropWhile isspace r = c # cs"
    by (cases "dropWhile isspace r") auto
  then have nc: "\<not> isspace c" by (rule dropWhile_head)
  from ne rest d have "hd rest = c" by (auto split: if_splits)
  moreover have "set r \<subseteq> set l"
    using r by (auto simp: scan_s_def Let_def split: if_splits dest!: set_dropWhileD)
  then have "set rest \<subseteq> set l"
    unfolding rest by (auto dest!: set_takeWhileD set_dropWhileD)
  ultimately show ?thesis using ne nc by simp
qed

lemma preprocess_sscanf_instruction:
  "preprocess l \<noteq> [] \<Longrightarrow> \<exists>i. sscanf_instruction (preprocess l) = Some i"
  by (cases "preprocess l") (auto simp: sscanf_instruction_head dest: preprocess_head)

lemma rest_sscanf_instruction:
  "sscanf_label_rest l = Some (n, rest) \<Longrightarrow> \<exists>i. sscanf_instruction rest = Some i"
  using sscanf_label_rest_props [of l n rest]
  by (cases rest) (auto simp: sscanf_instruction_head)


lemma instruction_size_Inr:
  "instruction_size i = Inr n \<Longrightarrow> i \<in> set reserved_words \<and> n = mnemonic_length i"
  by (auto simp: instruction_size_def reserved_words_def mnemonic_length_def split: if_splits)

lemma sscanf_label_rest_Nil: "sscanf_label_rest [] = None"
  by (simp add: sscanf_label_rest_def scan_s_def)

lemma line_label_blank: "preprocess l = [] \<Longrightarrow> line_label l = None"
  by (simp add: line_label_def sscanf_label_rest_Nil)

lemma first_pass_line_blank:
  "preprocess l = [] \<Longrightarrow> first_pass_line t lc l = Inr (t, lc, l, None)"
  by (simp add: first_pass_line_def)

lemma first_pass_line_Inr:
  assumes "first_pass_line t lc l = Inr (t', lc', l', a)" and "preprocess l \<noteq> []"
  shows "\<exists>i n. line_mnemonic l = Some i \<and> instruction_size i = Inr n \<and> lc' = lc + of_nat n
           \<and> a = Some lc \<and> preprocess l' \<noteq> [] \<and> sscanf_instruction (preprocess l') = Some i
           \<and> t' = (case line_label l of None \<Rightarrow> t | Some name \<Rightarrow> t @ [(name, lc)])
           \<and> (length t \<le> MAX_LABELS \<longrightarrow> length t' \<le> MAX_LABELS)"
proof (cases "sscanf_label_rest (preprocess l)")
  case None
  with assms show ?thesis
    by (auto simp: first_pass_line_def line_mnemonic_def line_label_def Let_def
        instruction_size_unlabelled_eq split: option.splits sum.splits)
next
  case (Some p)
  obtain name rest where p: "p = (name, rest)" by (cases p)
  note lr = Some [unfolded p]
  show ?thesis
  proof (cases "name \<in> set reserved_words")
    case True
    obtain c cs where pc: "preprocess l = c # cs" using assms(2) by (cases "preprocess l") auto
    have tok: "preprocess (preprocess l) \<noteq> []
        \<and> sscanf_instruction (preprocess (preprocess l)) = sscanf_instruction (preprocess l)"
      unfolding pc using preprocess_token [of c cs] preprocess_no_hash [of l] preprocess_head [OF pc]
      by (simp add: pc)
    from assms lr True tok show ?thesis
      by (auto simp: first_pass_line_def line_mnemonic_def line_label_def Let_def
          split: option.splits sum.splits)
  next
    case False
    from sscanf_label_rest_props [OF lr] obtain c cs where rc: "rest = c # cs" and nc: "\<not> isspace c"
      and sub: "set rest \<subseteq> set (preprocess l)"
      by (cases rest) auto
    have "CHR ''#'' \<notin> set (c # cs)" using sub preprocess_no_hash [of l] rc by auto
    then have tok: "preprocess rest \<noteq> [] \<and> sscanf_instruction (preprocess rest) = sscanf_instruction rest"
      unfolding rc using nc by (rule preprocess_token)
    from assms lr False tok show ?thesis
      by (auto simp: first_pass_line_def line_mnemonic_def line_label_def Let_def add_label_def
          split: option.splits sum.splits if_splits)
  qed
qed

lemma first_pass_line_Inl:
  assumes "first_pass_line t lc l = Inl e"
  shows "e = Symbol_Table_Overflow \<or> (\<exists>i. e = Unknown_Instruction_First_Pass i)"
proof (cases "preprocess l = []")
  case True
  with assms show ?thesis by (simp add: first_pass_line_def)
next
  case ne: False
  show ?thesis
  proof (cases "sscanf_label_rest (preprocess l)")
    case None
    with assms ne preprocess_sscanf_instruction [OF ne] show ?thesis
      by (auto simp: first_pass_line_def Let_def instruction_size_unlabelled_eq
          split: option.splits sum.splits dest: instruction_size_Inl)
  next
    case (Some p)
    obtain name rest where p: "p = (name, rest)" by (cases p)
    note lr = Some [unfolded p]
    from assms ne lr preprocess_sscanf_instruction [OF ne] rest_sscanf_instruction [OF lr]
    show ?thesis
      by (auto simp: first_pass_line_def Let_def add_label_def
          split: option.splits sum.splits if_splits) (blast dest: instruction_size_Inl)+
  qed
qed

lemma first_pass_line_unknown:
  assumes "line_mnemonic l = Some m" and "m \<notin> set reserved_words"
  shows "\<exists>e. first_pass_line t lc l = Inl e"
proof (cases "first_pass_line t lc l")
  case (Inl e)
  then show ?thesis by simp
next
  case (Inr r)
  obtain t' lc' l' a where r: "r = (t', lc', l', a)" by (cases r)
  from assms(1) have ne: "preprocess l \<noteq> []"
    by (auto simp: line_mnemonic_def Let_def split: if_splits)
  from first_pass_line_Inr [OF Inr [unfolded r] ne] assms show ?thesis
    by (auto dest: instruction_size_Inr)
qed


lemma instruction_size_table:
  "m \<in> set reserved_words \<Longrightarrow>
     instruction_size m = Inr (mnemonic_length m)
     \<and> instruction_size_unlabelled m = Inr (mnemonic_length m)"
  using instruction_size_reserved [of m] instruction_size_Inr [of m]
  by (auto simp: instruction_size_unlabelled_eq)

subsection \<open>Lengths in the two passes\<close>

lemma encode_two_operands_emits:
  "(\<exists>bytes. encode_two_operands t i a b = Inr bytes) =
     ((i \<in> set [''LOAD'', ''STORE'', ''ADD'', ''SUB''] \<and> get_register_code a \<noteq> 0xFF)
      \<or> (i \<in> set [''LOADI'', ''STOREI'', ''ADDR'', ''SUBR'']
          \<and> get_register_code a \<noteq> 0xFF \<and> get_register_code b \<noteq> 0xFF))"
  by (auto simp: encode_two_operands_def Let_def)

lemma encode_one_operand_emits:
  "(\<exists>bytes. encode_one_operand t i a = Inr bytes) =
     (i \<in> set [''OUT'', ''OUTC'', ''DATA'']
      \<or> (i \<in> set [''OUTR'', ''OUTRC'', ''OUTI'', ''OUTIC''] \<and> get_register_code a \<noteq> 0xFF)
      \<or> (i \<in> set [''JMP'', ''JMPZ'', ''JMPN'', ''JMPO''] \<and> find_label t a \<noteq> None))"
  by (auto simp: encode_one_operand_def Let_def split: option.splits)

lemma encode_no_operand_emits:
  "(\<exists>bytes. encode_no_operand i = Inr bytes) = (i = ''HALT'')"
  by (auto simp: encode_no_operand_def)

lemma second_pass_line_emits:
  assumes "preprocess row \<noteq> []"
  shows "(\<exists>bytes. second_pass_line t row = Inr bytes) = operands_fit t (preprocess row)"
proof (cases "sscanf_two_operands (preprocess row)")
  case (Some p)
  obtain i a b where p: "p = (i, a, b)" by (cases p)
  show ?thesis
    using assms encode_two_operands_emits [of t i a b]
    by (simp add: second_pass_line_def operands_fit_def Some p)
next
  case None
  note two = None
  show ?thesis
  proof (cases "sscanf_one_operand (preprocess row)")
    case (Some p)
    obtain i a where p: "p = (i, a)" by (cases p)
    show ?thesis
      using assms encode_one_operand_emits [of t i a]
      by (simp add: second_pass_line_def operands_fit_def two Some p)
  next
    case None
    from preprocess_sscanf_instruction [OF assms] obtain i where
      i: "sscanf_instruction (preprocess row) = Some i" by blast
    show ?thesis
      using assms encode_no_operand_emits [of i]
      by (simp add: second_pass_line_def operands_fit_def two None i)
  qed
qed

lemma encoder_lengths:
  "encode_no_operand ''HALT'' = Inr [HALT]"
  "i \<in> set [''LOAD'', ''STORE'', ''ADD'', ''SUB''] \<Longrightarrow>
     (\<exists>bytes. encode_two_operands t i a b = Inr bytes \<and> length bytes = 4)
       = (get_register_code a \<noteq> 0xFF)"
  "i \<in> set [''LOADI'', ''STOREI'', ''ADDR'', ''SUBR''] \<Longrightarrow>
     (\<exists>bytes. encode_two_operands t i a b = Inr bytes \<and> length bytes = 2)
       = (get_register_code a \<noteq> 0xFF \<and> get_register_code b \<noteq> 0xFF)"
  "i \<in> set [''OUT'', ''OUTC''] \<Longrightarrow>
     \<exists>bytes. encode_one_operand t i a = Inr bytes \<and> length bytes = 4"
  "\<exists>bytes. encode_one_operand t ''DATA'' a = Inr bytes \<and> length bytes = 2"
  "i \<in> set [''OUTR'', ''OUTRC'', ''OUTI'', ''OUTIC''] \<Longrightarrow>
     (\<exists>bytes. encode_one_operand t i a = Inr bytes \<and> length bytes = 2)
       = (get_register_code a \<noteq> 0xFF)"
  "i \<in> set [''JMP'', ''JMPZ'', ''JMPN'', ''JMPO''] \<Longrightarrow>
     (\<exists>bytes. encode_one_operand t i a = Inr bytes \<and> length bytes = 4)
       = (find_label t a \<noteq> None)"
  by (auto simp: encode_no_operand_def encode_two_operands_def encode_one_operand_def Let_def
      write16_def split: option.splits)

text \<open>
  Claim C4, amended. For a row that Pass 1 accepts: either the row is blank (no
  address, no bytes), or its mnemonic \<open>m\<close> is one of the twenty, Pass 1 advances the
  location counter by the table length of \<open>m\<close>, Pass 2 emits that many bytes whenever
  it emits bytes for the row, and it emits exactly when the operands of the row have
  the form the instruction needs; otherwise it exits, having written nothing for the
  row. Both size chains of Pass 1 give the table length for each of the twenty
  mnemonics: 1 for HALT, 4 for LOAD, STORE, JMP, JMPZ, JMPN, JMPO, ADD, SUB, OUT and
  OUTC, 2 for LOADI, STOREI, ADDR, SUBR, OUTR, OUTRC, OUTI, OUTIC and DATA. The
  encoders of Pass 2 emit 1 byte for HALT; 4 bytes for LOAD, STORE, ADD and SUB exactly
  when the register name is valid; 2 bytes for LOADI, STOREI, ADDR and SUBR exactly
  when both register names are valid; 4 bytes for OUT and OUTC and 2 bytes for DATA,
  always; 2 bytes for OUTR, OUTRC, OUTI and OUTIC exactly when the register name is
  valid; 4 bytes for JMP, JMPZ, JMPN and JMPO exactly when the operand is a label of
  the symbol table. A program with one line for each mnemonic assembles to
  1 + 10 * 4 + 9 * 2 = 59 bytes.
\<close>

theorem pass_lengths_agree:
  assumes "first_pass_line symbol_table lc row = Inr (symbol_table1, lc1, row1, adr)"
  shows "((preprocess row = [] \<and> lc1 = lc \<and> second_pass_line t row1 = Inr [])
          \<or> (\<exists>m \<in> set reserved_words. line_mnemonic row = Some m
                \<and> lc1 = lc + of_nat (mnemonic_length m)
                \<and> (\<forall>bytes. second_pass_line t row1 = Inr bytes
                      \<longrightarrow> length bytes = mnemonic_length m)
                \<and> ((\<exists>bytes. second_pass_line t row1 = Inr bytes)
                      = operands_fit t (preprocess row1))))
       \<and> (\<forall>m \<in> set reserved_words.
             instruction_size m = Inr (mnemonic_length m)
             \<and> instruction_size_unlabelled m = Inr (mnemonic_length m))
       \<and> encode_no_operand ''HALT'' = Inr [HALT]
       \<and> (\<forall>i \<in> set [''LOAD'', ''STORE'', ''ADD'', ''SUB''].
             (\<exists>bytes. encode_two_operands t i a b = Inr bytes \<and> length bytes = 4)
               = (get_register_code a \<noteq> 0xFF))
       \<and> (\<forall>i \<in> set [''LOADI'', ''STOREI'', ''ADDR'', ''SUBR''].
             (\<exists>bytes. encode_two_operands t i a b = Inr bytes \<and> length bytes = 2)
               = (get_register_code a \<noteq> 0xFF \<and> get_register_code b \<noteq> 0xFF))
       \<and> (\<forall>i \<in> set [''OUT'', ''OUTC''].
             \<exists>bytes. encode_one_operand t i a = Inr bytes \<and> length bytes = 4)
       \<and> (\<exists>bytes. encode_one_operand t ''DATA'' a = Inr bytes \<and> length bytes = 2)
       \<and> (\<forall>i \<in> set [''OUTR'', ''OUTRC'', ''OUTI'', ''OUTIC''].
             (\<exists>bytes. encode_one_operand t i a = Inr bytes \<and> length bytes = 2)
               = (get_register_code a \<noteq> 0xFF))
       \<and> (\<forall>i \<in> set [''JMP'', ''JMPZ'', ''JMPN'', ''JMPO''].
             (\<exists>bytes. encode_one_operand t i a = Inr bytes \<and> length bytes = 4)
               = (find_label t a \<noteq> None))
       \<and> sasm_main (source_text
            [''HALT'', ''LOAD R1, 7'', ''STORE R1, 100'', ''l JMP l'', ''JMPZ l'', ''JMPN l'',
             ''JMPO l'', ''ADD R2, 1'', ''SUB R2, 1'', ''OUT 5'', ''OUTC 65'', ''LOADI R1, A1'',
             ''STOREI R2, A2'', ''ADDR R1, R2'', ''SUBR R2, R1'', ''OUTR R1'', ''OUTRC R2'',
             ''OUTI A1'', ''OUTIC A2'', ''DATA 258''] [])
           = ([0x31, 0x60, 0x01, 0x00, 0x07, 0x62, 0x01, 0x00, 0x64, 0x64, 0x00, 0x00, 0x09,
               0x65, 0x00, 0x00, 0x09, 0x66, 0x00, 0x00, 0x09, 0x67, 0x00, 0x00, 0x09,
               0x68, 0x00, 0x00, 0x01, 0x6a, 0x00, 0x00, 0x01, 0x6c, 0x00, 0x00, 0x05,
               0x6d, 0x00, 0x00, 0x41, 0x61, 0xC1, 0x63, 0x80, 0x69, 0x01, 0x6b, 0x40,
               0x6e, 0x01, 0x6f, 0x00, 0x70, 0x03, 0x71, 0x02, 0x01, 0x02], None)"
proof -
  have row_part: "(preprocess row = [] \<and> lc1 = lc \<and> second_pass_line t row1 = Inr [])
          \<or> (\<exists>m \<in> set reserved_words. line_mnemonic row = Some m
                \<and> lc1 = lc + of_nat (mnemonic_length m)
                \<and> (\<forall>bytes. second_pass_line t row1 = Inr bytes
                      \<longrightarrow> length bytes = mnemonic_length m)
                \<and> ((\<exists>bytes. second_pass_line t row1 = Inr bytes)
                      = operands_fit t (preprocess row1)))"
  proof (cases "preprocess row = []")
    case True
    with assms show ?thesis
      by (auto simp: first_pass_line_blank second_pass_line_def)
  next
    case False
    from first_pass_line_Inr [OF assms False] obtain i n where
      i: "line_mnemonic row = Some i" "instruction_size i = Inr n" "lc1 = lc + of_nat n"
        "preprocess row1 \<noteq> []" "sscanf_instruction (preprocess row1) = Some i"
      by blast
    from instruction_size_Inr [OF i(2)] have m: "i \<in> set reserved_words" "n = mnemonic_length i"
      by auto
    have len: "length bytes = mnemonic_length i" if "second_pass_line t row1 = Inr bytes" for bytes
      using second_pass_line_size [OF that i(4)] i(2,5) m by auto
    from i m len second_pass_line_emits [OF i(4), of t] show ?thesis by blast
  qed
  have program: "sasm_main (source_text
            [''HALT'', ''LOAD R1, 7'', ''STORE R1, 100'', ''l JMP l'', ''JMPZ l'', ''JMPN l'',
             ''JMPO l'', ''ADD R2, 1'', ''SUB R2, 1'', ''OUT 5'', ''OUTC 65'', ''LOADI R1, A1'',
             ''STOREI R2, A2'', ''ADDR R1, R2'', ''SUBR R2, R1'', ''OUTR R1'', ''OUTRC R2'',
             ''OUTI A1'', ''OUTIC A2'', ''DATA 258''] [])
           = ([0x31, 0x60, 0x01, 0x00, 0x07, 0x62, 0x01, 0x00, 0x64, 0x64, 0x00, 0x00, 0x09,
               0x65, 0x00, 0x00, 0x09, 0x66, 0x00, 0x00, 0x09, 0x67, 0x00, 0x00, 0x09,
               0x68, 0x00, 0x00, 0x01, 0x6a, 0x00, 0x00, 0x01, 0x6c, 0x00, 0x00, 0x05,
               0x6d, 0x00, 0x00, 0x41, 0x61, 0xC1, 0x63, 0x80, 0x69, 0x01, 0x6b, 0x40,
               0x6e, 0x01, 0x6f, 0x00, 0x70, 0x03, 0x71, 0x02, 0x01, 0x02], None)"
    by code_simp
  show ?thesis
    by (intro conjI ballI)
      (rule row_part program encoder_lengths | assumption | simp add: instruction_size_table)+
qed

text \<open>
  Claim C4, as stated, fails on a row whose operands do not have the form its
  mnemonic needs. Pass 1 looks at the mnemonic alone: for the row \<open>HALT x\<close> it advances
  the location counter by 1. Pass 2 reads \<open>HALT\<close> with one operand, exits with its
  unknown-instruction diagnostic and emits no byte.
\<close>

theorem operand_form_counterexample:
  "line_mnemonic ''HALT x'' = Some ''HALT''
   \<and> first_pass_line [] 0 ''HALT x'' = Inr ([], 1, ''HALT x'', Some 0)
   \<and> second_pass_line [] ''HALT x'' = Inl (Unknown_One_Operand_Instruction ''HALT'')
   \<and> sasm_main ''HALT x'' = ([], Some (Unknown_One_Operand_Instruction ''HALT''))"
  by code_simp

text \<open>
  The theorem at the labelled row \<open>loop ADD R1, 1\<close>: Pass 1 registers \<open>loop\<close>, leaves
  \<open>ADD R1, 1\<close> and advances by 4; the operands fit and Pass 2 emits 4 bytes; and JMP to
  the defined label \<open>loop\<close> is encoded in 4 bytes.
\<close>

theorem pass_lengths_agree_witness:
  "first_pass_line [] 0 ''loop ADD R1, 1'' = Inr ([(''loop'', 0)], 4, ''ADD R1, 1'', Some 0)
   \<and> line_mnemonic ''loop ADD R1, 1'' = Some ''ADD''
   \<and> mnemonic_length ''ADD'' = 4
   \<and> second_pass_line [(''loop'', 0)] ''ADD R1, 1'' = Inr [0x68, 0x01, 0x00, 0x01]
   \<and> operands_fit [(''loop'', 0)] (preprocess ''ADD R1, 1'')
   \<and> ''JMP'' \<in> set [''JMP'', ''JMPZ'', ''JMPN'', ''JMPO'']
   \<and> find_label [(''loop'', 0)] ''loop'' \<noteq> None
   \<and> (\<exists>bytes. encode_one_operand [(''loop'', 0)] ''JMP'' ''loop'' = Inr bytes \<and> length bytes = 4)"
proof -
  have h1: "first_pass_line [] 0 ''loop ADD R1, 1'' = Inr ([(''loop'', 0)], 4, ''ADD R1, 1'', Some 0)"
    by code_simp
  have h2: "second_pass_line [(''loop'', 0)] ''ADD R1, 1'' = Inr [0x68, 0x01, 0x00, 0x01]"
    by code_simp
  have h3: "preprocess ''loop ADD R1, 1'' \<noteq> []" by code_simp
  have h4: "line_mnemonic ''loop ADD R1, 1'' = Some ''ADD''" by code_simp
  have h5: "mnemonic_length ''ADD'' = 4" by code_simp
  have h6: "find_label [(''loop'', 0)] ''loop'' \<noteq> None" by simp
  note t = pass_lengths_agree [OF h1, of "[(''loop'', 0)]" "''loop''" "''R1''"]
  from t h2 h3 have "operands_fit [(''loop'', 0)] (preprocess ''ADD R1, 1'')"
    by auto
  moreover from t h6
  have "\<exists>bytes. encode_one_operand [(''loop'', 0)] ''JMP'' ''loop'' = Inr bytes \<and> length bytes = 4"
    by simp
  ultimately show ?thesis using h1 h2 h4 h5 h6 by simp
qed

subsection \<open>Unknown mnemonics\<close>

lemma first_pass_from_unknown:
  assumes "line \<in> set lines" and "line_mnemonic line = Some m" and "m \<notin> set reserved_words"
  shows "\<exists>e. first_pass_from t lc lines = Inl e
           \<and> (e = Symbol_Table_Overflow \<or> (\<exists>i. e = Unknown_Instruction_First_Pass i))"
  using assms(1)
proof (induction lines arbitrary: t lc)
  case Nil
  then show ?case by simp
next
  case (Cons l ls)
  show ?case
  proof (cases "first_pass_line t lc l")
    case (Inl e)
    with first_pass_line_Inl [OF Inl] show ?thesis by simp
  next
    case (Inr r)
    obtain t1 lc1 l1 a1 where r: "r = (t1, lc1, l1, a1)" by (cases r)
    from Inr first_pass_line_unknown [OF assms(2,3), of t lc] have "l \<noteq> line" by auto
    with Cons.prems have "line \<in> set ls" by simp
    from Cons.IH [OF this, of t1 lc1] Inr r show ?thesis by auto
  qed
qed

subsection \<open>The reading loop\<close>

lemma fgets_no_newline:
  "CHR 0x0A \<notin> set l \<Longrightarrow> n \<le> length l \<Longrightarrow> fgets n (l @ rest) = (take n l, drop n l @ rest)"
proof (induction n arbitrary: l)
  case 0
  then show ?case by simp
next
  case (Suc n)
  then obtain c cs where l: "l = c # cs" by (cases l) auto
  with Suc.prems have "CHR 0x0A \<notin> set cs" "n \<le> length cs" "c \<noteq> CHR 0x0A" by auto
  with Suc.IH [of cs] show ?case by (simp add: l)
qed

lemma fgets_line:
  "CHR 0x0A \<notin> set l \<Longrightarrow> length l < n \<Longrightarrow> fgets n (l @ CHR 0x0A # rest) = (l @ [CHR 0x0A], rest)"
proof (induction l arbitrary: n)
  case Nil
  then obtain m where "n = Suc m" by (cases n) auto
  then show ?case by simp
next
  case (Cons c cs)
  then obtain m where n: "n = Suc m" by (cases n) auto
  with Cons.prems have "CHR 0x0A \<notin> set cs" "length cs < m" "c \<noteq> CHR 0x0A" by auto
  with Cons.IH [of m] show ?case by (simp add: n)
qed

lemma fgets_last:
  "CHR 0x0A \<notin> set l \<Longrightarrow> length l \<le> n \<Longrightarrow> fgets n l = (l, [])"
proof (induction l arbitrary: n)
  case Nil
  then show ?case by (cases n) auto
next
  case (Cons c cs)
  then obtain m where n: "n = Suc m" by (cases n) auto
  with Cons.prems have "CHR 0x0A \<notin> set cs" "length cs \<le> m" "c \<noteq> CHR 0x0A" by auto
  with Cons.IH [of m] show ?case by (simp add: n)
qed

lemma row_of_chunk:
  "CHR 0x0A \<notin> set l \<Longrightarrow> CHR 0x00 \<notin> set l \<Longrightarrow>
   takeWhile (\<lambda>c. c \<noteq> CHR 0x0A \<and> c \<noteq> CHR 0x00) (l @ r) =
     l @ takeWhile (\<lambda>c. c \<noteq> CHR 0x0A \<and> c \<noteq> CHR 0x00) r"
  by (induction l) auto

lemma read_lines_Nil: "read_lines [] = []"
  by (simp add: read_lines.simps)

lemma read_lines_split:
  "CHR 0x0A \<notin> set l \<Longrightarrow>
   read_lines (l @ CHR 0x0A # rest) = read_lines (l @ [CHR 0x0A]) @ read_lines rest"
proof (induction "length l" arbitrary: l rule: less_induct)
  case less
  let ?row = "takeWhile (\<lambda>c. c \<noteq> CHR 0x0A \<and> c \<noteq> CHR 0x00)"
  show ?case
  proof (cases "length l < 99")
    case True
    have f1: "fgets 99 (l @ CHR 0x0A # rest) = (l @ [CHR 0x0A], rest)"
      by (rule fgets_line [OF less.prems True])
    have f2: "fgets 99 (l @ [CHR 0x0A]) = (l @ [CHR 0x0A], [])"
      using fgets_line [OF less.prems True, of "[]"] by simp
    have "read_lines (l @ CHR 0x0A # rest) = ?row (l @ [CHR 0x0A]) # read_lines rest"
      by (subst read_lines.simps) (simp add: f1)
    moreover have "read_lines (l @ [CHR 0x0A]) = [?row (l @ [CHR 0x0A])]"
      by (subst read_lines.simps) (simp add: f2 read_lines_Nil)
    ultimately show ?thesis by simp
  next
    case False
    then have n: "99 \<le> length l" by simp
    have d: "CHR 0x0A \<notin> set (drop 99 l)" using less.prems by (auto dest: in_set_dropD)
    have s: "length (drop 99 l) < length l" using n by simp
    have ne: "l \<noteq> []" using n by auto
    have f1: "fgets 99 (l @ CHR 0x0A # rest) = (take 99 l, drop 99 l @ CHR 0x0A # rest)"
      by (rule fgets_no_newline [OF less.prems n])
    have f2: "fgets 99 (l @ [CHR 0x0A]) = (take 99 l, drop 99 l @ [CHR 0x0A])"
      by (rule fgets_no_newline [OF less.prems n])
    have "read_lines (l @ CHR 0x0A # rest)
            = ?row (take 99 l) # read_lines (drop 99 l @ CHR 0x0A # rest)"
      by (subst read_lines.simps) (simp add: f1)
    moreover have "read_lines (l @ [CHR 0x0A])
            = ?row (take 99 l) # read_lines (drop 99 l @ [CHR 0x0A])"
      by (subst read_lines.simps) (simp add: f2)
    ultimately show ?thesis using less.hyps [OF s d] by simp
  qed
qed

lemma fgets_newline: "fgets 99 (CHR 0x0A # cs) = ([CHR 0x0A], cs)"
proof -
  have "fgets (Suc 98) (CHR 0x0A # cs) = ([CHR 0x0A], cs)" by (subst fgets.simps) simp
  then show ?thesis by simp
qed

lemma read_lines_newline: "read_lines [CHR 0x0A] = [[]]"
  by (simp add: read_lines.simps [of "[CHR 0x0A]"] fgets_newline read_lines_Nil)

lemma read_lines_fitting_line:
  assumes "fits_row l"
  shows "read_lines (l @ [CHR 0x0A]) = (if length l = 99 then [l, []] else [l])"
proof (cases "length l < 99")
  case True
  from assms have nl: "CHR 0x0A \<notin> set l" and nz: "CHR 0x00 \<notin> set l" by (auto simp: fits_row_def)
  have f: "fgets 99 (l @ [CHR 0x0A]) = (l @ [CHR 0x0A], [])"
    using fgets_line [OF nl True, of "[]"] by simp
  have r: "takeWhile (\<lambda>c. c \<noteq> CHR 0x0A \<and> c \<noteq> CHR 0x00) (l @ [CHR 0x0A]) = l"
    using row_of_chunk [OF nl nz, of "[CHR 0x0A]"] by simp
  have "read_lines (l @ [CHR 0x0A]) = [l]"
    by (subst read_lines.simps) (simp add: f r read_lines_Nil)
  with True show ?thesis by simp
next
  case False
  with assms have n: "length l = 99" and nl: "CHR 0x0A \<notin> set l" and nz: "CHR 0x00 \<notin> set l"
    by (auto simp: fits_row_def)
  have f: "fgets 99 (l @ [CHR 0x0A]) = (l, [CHR 0x0A])"
    using fgets_no_newline [OF nl, of 99 "[CHR 0x0A]"] n by simp
  have r: "takeWhile (\<lambda>c. c \<noteq> CHR 0x0A \<and> c \<noteq> CHR 0x00) l = l"
    using row_of_chunk [OF nl nz, of "[]"] by simp
  have "read_lines (l @ [CHR 0x0A]) = [l, []]"
    by (subst read_lines.simps) (simp add: f r read_lines_newline)
  with n show ?thesis by simp
qed

lemma read_lines_fitting_last:
  assumes "fits_row l"
  shows "read_lines l = (if l = [] then [] else [l])"
proof (cases "l = []")
  case True
  then show ?thesis by (simp add: read_lines_Nil)
next
  case False
  from assms have nl: "CHR 0x0A \<notin> set l" and nz: "CHR 0x00 \<notin> set l" and n: "length l \<le> 99"
    by (auto simp: fits_row_def)
  have f: "fgets 99 l = (l, [])" by (rule fgets_last [OF nl n])
  have r: "takeWhile (\<lambda>c. c \<noteq> CHR 0x0A \<and> c \<noteq> CHR 0x00) l = l"
    using row_of_chunk [OF nl nz, of "[]"] by simp
  have "read_lines l = [l]"
    by (subst read_lines.simps) (simp add: f r False read_lines_Nil)
  with False show ?thesis by simp
qed

lemma source_text_Cons: "source_text (l # ls) final = l @ CHR 0x0A # source_text ls final"
  by (simp add: source_text_def)

lemma read_lines_source_text:
  "\<forall>l\<in>set ls. CHR 0x0A \<notin> set l \<Longrightarrow>
   read_lines (source_text ls final)
     = concat (map (\<lambda>l. read_lines (l @ [CHR 0x0A])) ls) @ read_lines final"
proof (induction ls)
  case Nil
  then show ?case by (simp add: source_text_def)
next
  case (Cons l ls)
  have "read_lines (l @ CHR 0x0A # source_text ls final)
          = read_lines (l @ [CHR 0x0A]) @ read_lines (source_text ls final)"
    by (rule read_lines_split) (use Cons.prems in simp)
  with Cons show ?case by (simp add: source_text_Cons)
qed

lemma fitting_line_is_row:
  assumes "\<forall>l\<in>set ls. CHR 0x0A \<notin> set l"
    and "line \<in> set (ls @ [final])" and "fits_row line" and "line \<noteq> []"
  shows "line \<in> set (read_lines (source_text ls final))"
proof (cases "line \<in> set ls")
  case True
  from read_lines_fitting_line [OF assms(3)] have "line \<in> set (read_lines (line @ [CHR 0x0A]))"
    by (simp split: if_splits)
  with True show ?thesis
    unfolding read_lines_source_text [OF assms(1)] by auto
next
  case False
  with assms(2) have "line = final" by simp
  with read_lines_fitting_last [OF assms(3)] assms(4) show ?thesis
    unfolding read_lines_source_text [OF assms(1)] by simp
qed

lemma line_label_Nil: "line_label [] = None"
  by (simp add: line_label_def preprocess_def strip_comments_def trim_whitespace_def
      sscanf_label_rest_Nil)

lemma map_filter_append: "List.map_filter f (xs @ ys) = List.map_filter f xs @ List.map_filter f ys"
  by (simp add: List.map_filter_def)

lemma labels_of_rows:
  assumes "\<forall>l\<in>set ls. fits_row l" and "fits_row final"
  shows "List.map_filter line_label (read_lines (source_text ls final))
           = List.map_filter line_label (ls @ [final])"
proof -
  have nl: "\<forall>l\<in>set ls. CHR 0x0A \<notin> set l" using assms(1) by (auto simp: fits_row_def)
  have "List.map_filter line_label (concat (map (\<lambda>l. read_lines (l @ [CHR 0x0A])) ls))
          = List.map_filter line_label ls"
    using assms(1)
  proof (induction ls)
    case Nil
    then show ?case by simp
  next
    case (Cons l ls)
    then have "fits_row l" by simp
    from read_lines_fitting_line [OF this] Cons show ?case
      by (auto simp: map_filter_append List.map_filter_simps line_label_Nil
          split: option.splits)
  qed
  moreover have "List.map_filter line_label (read_lines final) = List.map_filter line_label [final]"
    using read_lines_fitting_last [OF assms(2)]
    by (auto simp: List.map_filter_simps line_label_Nil)
  ultimately show ?thesis
    unfolding read_lines_source_text [OF nl] by (simp add: map_filter_append)
qed


lemma line_mnemonic_nonempty: "line_mnemonic l = Some m \<Longrightarrow> l \<noteq> []"
  by (auto simp: line_mnemonic_def preprocess_def strip_comments_def trim_whitespace_def)

text \<open>
  Claim C7, amended. The source text has the lines \<open>ls\<close>, each ended by a newline, and
  a last line \<open>final\<close>; \<open>main\<close> reads it in at most 1024 rows. The mnemonic of a line
  is the token Pass 1 takes for its instruction (the first token, or the token after
  the label). If one of the lines has at most 99 characters, none of them NUL, and its
  mnemonic is not one of the recognised ones, then \<open>first_pass\<close> exits with a
  diagnostic (unknown instruction, or symbol table overflow when an earlier row
  overflows the table), and \<open>main\<close> has written no byte: Pass 2 never starts.
\<close>

theorem unknown_mnemonic_aborts_pass1:
  assumes "\<forall>l\<in>set ls. CHR 0x0A \<notin> set l"
    and "line \<in> set (ls @ [final])" and "fits_row line"
    and "line_mnemonic line = Some m" and "m \<notin> set reserved_words"
    and "length (read_lines (source_text ls final)) \<le> 1024"
  shows "\<exists>e. first_pass (read_lines (source_text ls final)) = Inl e
           \<and> (e = Symbol_Table_Overflow \<or> (\<exists>i. e = Unknown_Instruction_First_Pass i))
           \<and> sasm_main (source_text ls final) = ([], Some e)"
proof -
  have "line \<in> set (read_lines (source_text ls final))"
    using assms(1,2,3) line_mnemonic_nonempty [OF assms(4)] by (rule fitting_line_is_row)
  from first_pass_from_unknown [OF this assms(4,5), of "[]" 0] assms(6)
  show ?thesis
    by (auto simp: first_pass_def sasm_main_def assemble_rows_def)
qed

text \<open>
  The theorem at a three-line source whose second line is \<open>NOP\<close>.
\<close>

theorem unknown_mnemonic_aborts_pass1_witness:
  "''NOP'' \<in> set ([''LOAD R1, 5'', ''NOP'', ''HALT''] @ [[]])
   \<and> fits_row ''NOP''
   \<and> line_mnemonic ''NOP'' = Some ''NOP''
   \<and> ''NOP'' \<notin> set reserved_words
   \<and> length (read_lines (source_text [''LOAD R1, 5'', ''NOP'', ''HALT''] [])) \<le> 1024
   \<and> sasm_main (source_text [''LOAD R1, 5'', ''NOP'', ''HALT''] [])
       = ([], Some (Unknown_Instruction_First_Pass ''NOP''))"
proof -
  have h0: "\<forall>l\<in>set [''LOAD R1, 5'', ''NOP'', ''HALT'']. CHR 0x0A \<notin> set l" by simp
  have h1: "''NOP'' \<in> set ([''LOAD R1, 5'', ''NOP'', ''HALT''] @ [[]])" by simp
  have h2: "fits_row ''NOP''" by (simp add: fits_row_def)
  have h3: "line_mnemonic ''NOP'' = Some ''NOP''" by code_simp
  have h4: "''NOP'' \<notin> set reserved_words" by code_simp
  have h5: "length (read_lines (source_text [''LOAD R1, 5'', ''NOP'', ''HALT''] [])) \<le> 1024"
    by code_simp
  have "sasm_main (source_text [''LOAD R1, 5'', ''NOP'', ''HALT''] [])
       = ([], Some (Unknown_Instruction_First_Pass ''NOP''))" by code_simp
  with unknown_mnemonic_aborts_pass1 [OF h0 h1 h2 h3 h4 h5] h1 h2 h3 h4 h5 show ?thesis by blast
qed

text \<open>
  Claim C7, as stated, fails on a line that does not fit a row of \<open>lines\<close>. The
  source line of 95 blanks followed by \<open>HALTHALT\<close> has the unrecognised mnemonic
  \<open>HALTHALT\<close>; \<open>fgets\<close> cuts it after 99 characters, \<open>main\<close> reads the two rows
  that end in \<open>HALT\<close> and are \<open>HALT\<close>, both passes complete and the translator
  writes \<open>31 31\<close>.
\<close>

theorem long_line_counterexample:
  "line_mnemonic (replicate 95 (CHR '' '') @ ''HALTHALT'') = Some ''HALTHALT''
   \<and> ''HALTHALT'' \<notin> set reserved_words
   \<and> read_lines (source_text [replicate 95 (CHR '' '') @ ''HALTHALT''] [])
       = [replicate 95 (CHR '' '') @ ''HALT'', ''HALT'']
   \<and> sasm_main (source_text [replicate 95 (CHR '' '') @ ''HALTHALT''] []) = ([0x31, 0x31], None)"
  by code_simp


subsection \<open>Labels\<close>

lemma single_token_scan:
  assumes "tok \<noteq> []" and "\<forall>c\<in>set tok. \<not> isspace c"
  shows "scan_s tok = Some (tok, [])"
proof -
  obtain c cs where t: "tok = c # cs" using assms(1) by (cases tok) auto
  have d: "dropWhile isspace tok = tok" using assms(2) t by simp
  have tw: "takeWhile (\<lambda>c. \<not> isspace c) tok = tok"
    using assms(2) by (subst takeWhile_eq_all_conv) auto
  have dw: "dropWhile (\<lambda>c. \<not> isspace c) tok = []"
    using assms(2) by simp
  show ?thesis using assms(1) by (simp add: scan_s_def d tw dw)
qed

text \<open>
  Claim C8. A line that, once its comment is stripped and it is trimmed, is a single
  token that is not a reserved word is not label-bearing: the label pattern needs a
  second conversion, so no label is registered for it. Pass 1 takes the token for an
  instruction and exits with the unknown-instruction diagnostic.
\<close>

theorem lone_label_not_registered:
  assumes "preprocess line \<noteq> []"
    and "\<forall>c\<in>set (preprocess line). \<not> isspace c"
    and "preprocess line \<notin> set reserved_words"
  shows "line_label line = None
       \<and> first_pass_line symbol_table lc line
           = Inl (Unknown_Instruction_First_Pass (preprocess line))"
proof -
  have s: "scan_s (preprocess line) = Some (preprocess line, [])"
    using assms(1,2) by (rule single_token_scan)
  have l: "sscanf_label_rest (preprocess line) = None"
    by (simp add: sscanf_label_rest_def s scan_until_def)
  have i: "sscanf_instruction (preprocess line) = Some (preprocess line)"
    by (simp add: sscanf_instruction_def s)
  show ?thesis
    using assms(1,3)
    by (simp add: line_label_def first_pass_line_def l i instruction_size_unlabelled_eq
        instruction_size_unknown)
qed

text \<open>
  The theorem at the line \<open>start\<close> with surrounding blanks and a comment.
\<close>

theorem lone_label_not_registered_witness:
  "preprocess ''  start   # entry point'' = ''start''
   \<and> line_label ''  start   # entry point'' = None
   \<and> first_pass_line [] 0 ''  start   # entry point''
       = Inl (Unknown_Instruction_First_Pass ''start'')"
proof -
  have p: "preprocess ''  start   # entry point'' = ''start''" by code_simp
  have h1: "preprocess ''  start   # entry point'' \<noteq> []" by (simp add: p)
  have h2: "\<forall>c\<in>set (preprocess ''  start   # entry point''). \<not> isspace c"
    unfolding p by code_simp
  have h3: "preprocess ''  start   # entry point'' \<notin> set reserved_words"
    unfolding p by code_simp
  from lone_label_not_registered [OF h1 h2 h3, of "[]" 0] p show ?thesis by simp
qed

lemma find_label_map_of: "find_label t name = map_of t name"
  by (induction t) auto

lemma first_pass_from_labels:
  assumes "first_pass_from t lc lines = Inr (t', lc', lines', as)"
  shows "map fst t' = map fst t @ List.map_filter line_label lines
       \<and> (length t \<le> MAX_LABELS \<longrightarrow> length t' \<le> MAX_LABELS)"
  using assms
proof (induction lines arbitrary: t lc t' lc' lines' as)
  case Nil
  then show ?case by (simp add: List.map_filter_simps)
next
  case (Cons l ls)
  from Cons.prems obtain t1 lc1 l1 a1 where
    st: "first_pass_line t lc l = Inr (t1, lc1, l1, a1)"
    by (auto split: sum.splits)
  from Cons.prems st obtain ls2 as2 where
    rest: "first_pass_from t1 lc1 ls = Inr (t', lc', ls2, as2)"
    by (auto split: sum.splits)
  have t1: "t1 = (case line_label l of None \<Rightarrow> t | Some name \<Rightarrow> t @ [(name, lc)])
          \<and> (length t \<le> MAX_LABELS \<longrightarrow> length t1 \<le> MAX_LABELS)"
  proof (cases "preprocess l = []")
    case True
    with st show ?thesis by (simp add: first_pass_line_blank line_label_blank)
  next
    case False
    from first_pass_line_Inr [OF st False] show ?thesis by blast
  qed
  from Cons.IH [OF rest] t1 show ?case
    by (auto simp: List.map_filter_simps split: option.splits)
qed

text \<open>
  Claim C3, amended. The source text has the lines \<open>ls\<close>, each ended by a newline, and
  a last line \<open>final\<close>; every line has at most 99 characters, none of them NUL, and
  \<open>main\<close> reads the text in at most 1024 rows. If Pass 1 accepts the program (as it
  does for every program the translator accepts), the names in the symbol table are
  the labels of the label-bearing lines, one entry for each such line, in source order,
  and at most 256 of them; a name defined on several lines is stored once for each
  definition, and \<open>find_label\<close> resolves a name to its first entry.
\<close>

theorem symbol_table_lists_every_definition:
  assumes "\<forall>l\<in>set ls. fits_row l" and "fits_row final"
    and "length (read_lines (source_text ls final)) \<le> 1024"
    and "first_pass (read_lines (source_text ls final)) = Inr (symbol_table, lc, rows1, as)"
  shows "map fst symbol_table = List.map_filter line_label (ls @ [final])
       \<and> length symbol_table \<le> MAX_LABELS
       \<and> find_label symbol_table name = map_of symbol_table name"
  using first_pass_from_labels [OF assms(4) [unfolded first_pass_def]]
    labels_of_rows [OF assms(1,2)]
  by (simp add: find_label_map_of)

text \<open>
  Claim C3, as stated, fails: \<open>add_label\<close> appends without looking the name up. The
  program \<open>x HALT; x HALT\<close> is accepted, both passes complete, and the symbol table
  holds \<open>x\<close> twice.
\<close>

theorem duplicate_label_counterexample:
  "first_pass (read_lines (source_text [''x HALT'', ''x HALT''] []))
     = Inr ([(''x'', 0), (''x'', 1)], 2, [''HALT'', ''HALT''], [Some 0, Some 1])
   \<and> sasm_main (source_text [''x HALT'', ''x HALT''] []) = ([0x31, 0x31], None)"
  by code_simp

text \<open>
  The theorem at the program \<open>x HALT; x HALT\<close>.
\<close>

theorem symbol_table_lists_every_definition_witness:
  "fits_row ''x HALT'' \<and> fits_row []
   \<and> length (read_lines (source_text [''x HALT'', ''x HALT''] [])) \<le> 1024
   \<and> first_pass (read_lines (source_text [''x HALT'', ''x HALT''] []))
       = Inr ([(''x'', 0), (''x'', 1)], 2, [''HALT'', ''HALT''], [Some 0, Some 1])
   \<and> List.map_filter line_label ([''x HALT'', ''x HALT''] @ [[]]) = [''x'', ''x'']
   \<and> find_label [(''x'', 0), (''x'', 1)] ''x'' = Some 0"
proof -
  have h1: "\<forall>l\<in>set [''x HALT'', ''x HALT'']. fits_row l" by (simp add: fits_row_def)
  have h2: "fits_row []" by (simp add: fits_row_def)
  have h3: "length (read_lines (source_text [''x HALT'', ''x HALT''] [])) \<le> 1024" by code_simp
  have h4: "first_pass (read_lines (source_text [''x HALT'', ''x HALT''] []))
     = Inr ([(''x'', 0), (''x'', 1)], 2, [''HALT'', ''HALT''], [Some 0, Some 1])"
    by code_simp
  from symbol_table_lists_every_definition [OF h1 h2 h3 h4, of "''x''"] h1 h2 h3 h4
  show ?thesis by simp
qed

subsection \<open>Operands that are not labels\<close>

text \<open>
  Claim C6. When \<open>find_label\<close> does not find the operand: for JMP, JMPZ, JMPN and JMPO
  the encoder exits with the undefined-label error; for OUT, OUTC and DATA, and for
  LOAD, STORE, ADD and SUB with a valid register, it encodes the value \<open>atoi\<close> gives
  for the operand text and succeeds.
\<close>

theorem undefined_operand_asymmetry:
  assumes "find_label symbol_table operand = None"
  shows "(m \<in> set [''JMP'', ''JMPZ'', ''JMPN'', ''JMPO''] \<longrightarrow>
            encode_one_operand symbol_table m operand = Inl (Undefined_Label operand))
       \<and> encode_one_operand symbol_table ''OUT'' operand
           = Inr ([OUT, 0] @ write16 (word_of_int (atoi operand)))
       \<and> encode_one_operand symbol_table ''OUTC'' operand
           = Inr ([OUTC, 0] @ write16 (word_of_int (atoi operand)))
       \<and> encode_one_operand symbol_table ''DATA'' operand
           = Inr (write16 (word_of_int (atoi operand)))
       \<and> (get_register_code r \<noteq> 0xFF \<longrightarrow>
            encode_two_operands symbol_table ''LOAD'' r operand
              = Inr ([LOAD, get_register_code r] @ write16 (word_of_int (atoi operand)))
          \<and> encode_two_operands symbol_table ''STORE'' r operand
              = Inr ([STORE, get_register_code r] @ write16 (word_of_int (atoi operand)))
          \<and> encode_two_operands symbol_table ''ADD'' r operand
              = Inr ([ADD, get_register_code r] @ write16 (word_of_int (atoi operand)))
          \<and> encode_two_operands symbol_table ''SUB'' r operand
              = Inr ([SUB, get_register_code r] @ write16 (word_of_int (atoi operand))))"
  using assms
  by (auto simp: encode_one_operand_def encode_two_operands_def label_or_literal_def Let_def)

text \<open>
  The theorem at the operand \<open>undefined_label\<close> and the empty symbol table, together
  with the two lines \<open>JMP undefined_label\<close> and \<open>OUT undefined_label\<close> run through
  \<open>second_pass_line\<close>.
\<close>

theorem undefined_operand_asymmetry_witness:
  "find_label [] ''undefined_label'' = None
   \<and> second_pass_line [] ''JMP undefined_label'' = Inl (Undefined_Label ''undefined_label'')
   \<and> second_pass_line [] ''OUT undefined_label'' = Inr [0x6c, 0x00, 0x00, 0x00]
   \<and> encode_one_operand [] ''JMP'' ''undefined_label'' = Inl (Undefined_Label ''undefined_label'')
   \<and> encode_one_operand [] ''OUT'' ''undefined_label'' = Inr [0x6c, 0x00, 0x00, 0x00]
   \<and> encode_two_operands [] ''LOAD'' ''R1'' ''undefined_label'' = Inr [0x60, 0x01, 0x00, 0x00]"
proof -
  have h: "find_label [] ''undefined_label'' = None" by simp
  have a: "atoi ''undefined_label'' = 0" by code_simp
  have g: "get_register_code ''R1'' = 1" by code_simp
  have l1: "second_pass_line [] ''JMP undefined_label'' = Inl (Undefined_Label ''undefined_label'')"
    by code_simp
  have l2: "second_pass_line [] ''OUT undefined_label'' = Inr [0x6c, 0x00, 0x00, 0x00]"
    by code_simp
  from undefined_operand_asymmetry [OF h, of "''JMP''" "''R1''"] h a g l1 l2
  show ?thesis by (simp add: write16_def OUT_def LOAD_def)
qed

end
